theory Spec2Isabelle
  imports Complex_Main
begin

text \<open>
  A shallow embedding of the synchronisation, cleaning, feature, labelling and
  order-selection code of the stock-market trend analysis repository
  (\<^verbatim>\<open>data/realtime_updater.py\<close>, \<^verbatim>\<open>data/data_cleaner.py\<close>,
  \<^verbatim>\<open>models/random_forest_predictor.py\<close>, \<^verbatim>\<open>models/arima_forecaster.py\<close>,
  \<^verbatim>\<open>utils/database.py\<close>, \<^verbatim>\<open>config.py\<close>).

  Conventions. A data frame is the list of its rows in positional order. A calendar
  date is an \<open>int\<close> (its day number), so that the difference of two dates is the
  \<open>.days\<close> of the Python \<open>timedelta\<close>. A stored floating-point cell is a
  \<open>real\<close>, or a \<open>real option\<close> where it may be missing (\<open>None\<close> is NaN); a
  computed cell is an \<open>fval\<close>: a finite number, an infinity or NaN. Arithmetic on
  finite numbers is exact: rounding and overflow are not modelled. Where the code relies
  on IEEE special values (a comparison with NaN, a division by zero) the cases are
  written out. Exceptions are values: a function that can raise returns a sum, and a
  function that catches returns what its handler returns. Logging is a list of records,
  returned with the result.
\<close>

section \<open>Price bars and the cleaning stage (data/data_cleaner.py)\<close>

text \<open>
  One row of the \<^verbatim>\<open>stocks\<close> table or of a frame read from it. The five numeric
  columns share the type parameter: \<open>real option\<close> for a raw frame, where a cell may be
  missing, and \<open>real\<close> for a frame without missing cells.
\<close>

record 'a bar =
  symbol :: string
  date :: int
  "open" :: 'a
  high :: 'a
  low :: 'a
  close :: 'a
  volume :: 'a

type_synonym raw_bar = "real option bar"

text \<open>The subset \<^verbatim>\<open>['symbol', 'date']\<close> that identifies a row.\<close>

definition key :: "('a, 'b) bar_scheme \<Rightarrow> string \<times> int" where
  "key r = (symbol r, date r)"

text \<open>
  \<^verbatim>\<open>df.drop_duplicates(subset=['symbol', 'date'])\<close>: of the rows with the same key the
  first is kept (pandas' default \<^verbatim>\<open>keep='first'\<close>), the order of the kept rows is unchanged.
\<close>

fun drop_duplicates :: "('a, 'b) bar_scheme list \<Rightarrow> ('a, 'b) bar_scheme list" where
  "drop_duplicates [] = []"
| "drop_duplicates (r # rs) = r # drop_duplicates (filter (\<lambda>x. key x \<noteq> key r) rs)"

text \<open>
  \<^verbatim>\<open>df.sort_values('date').reset_index(drop=True)\<close>. Rows with equal dates keep their
  relative order here (insertion sort is stable); pandas' default sort leaves the order of
  ties open. After \<open>drop_duplicates\<close> two rows with the same date differ in their symbol.
\<close>

definition sort_values_date :: "'a bar list \<Rightarrow> 'a bar list" where
  "sort_values_date df = sort_key date df"

text \<open>
  \<^verbatim>\<open>df.isnull().sum().sum() > 0\<close> holds when some row has a missing cell; symbol and
  date are never missing in this model.
\<close>

definition isnull_any :: "raw_bar \<Rightarrow> bool" where
  "isnull_any r \<longleftrightarrow>
     open r = None \<or> high r = None \<or> low r = None \<or> close r = None \<or> volume r = None"

text \<open>
  \<^verbatim>\<open>df[price_columns].fillna(method='ffill')\<close>: column by column, a missing cell takes
  the last present value above it and stays missing when there is none. \<open>ffill\<close> carries
  the last values of the four price columns down the frame.
\<close>

definition pad :: "'v option \<Rightarrow> 'v option \<Rightarrow> 'v option" where
  "pad prev x = (case x of None \<Rightarrow> prev | Some v \<Rightarrow> Some v)"

fun ffill :: "real option \<times> real option \<times> real option \<times> real option \<Rightarrow> raw_bar list \<Rightarrow> raw_bar list" where
  "ffill prev [] = []"
| "ffill (po, ph, pl, pc) (r # rs) =
     (let r' = r\<lparr>open := pad po (open r), high := pad ph (high r),
                  low := pad pl (low r), close := pad pc (close r)\<rparr>
      in r' # ffill (open r', high r', low r', close r') rs)"

text \<open>\<^verbatim>\<open>df['volume'].fillna(0)\<close>.\<close>

definition fillna_volume :: "raw_bar \<Rightarrow> raw_bar" where
  "fillna_volume r = r\<lparr>volume := (case volume r of None \<Rightarrow> Some 0 | Some v \<Rightarrow> Some v)\<rparr>"

text \<open>Lines 88 to 98: both fills run only when the frame has a missing cell.\<close>

definition handle_missing :: "raw_bar list \<Rightarrow> raw_bar list" where
  "handle_missing df =
     (if list_ex isnull_any df
      then map fillna_volume (ffill (None, None, None, None) df)
      else df)"

text \<open>
  Comparisons of cells. A comparison with NaN is false, so a missing cell is neither
  \<open>\<le> 0\<close> nor \<open>\<ge>\<close> anything.
\<close>

definition le_zero :: "real option \<Rightarrow> bool" where
  "le_zero x = (case x of None \<Rightarrow> False | Some v \<Rightarrow> v \<le> 0)"

definition ge :: "real option \<Rightarrow> real option \<Rightarrow> bool" where
  "ge x y = (case (x, y) of (Some a, Some b) \<Rightarrow> a \<ge> b | _ \<Rightarrow> False)"

text \<open>Lines 100 to 104: rows with a price that is zero or negative are removed.\<close>

definition invalid_prices :: "raw_bar \<Rightarrow> bool" where
  "invalid_prices r \<longleftrightarrow>
     le_zero (open r) \<or> le_zero (high r) \<or> le_zero (low r) \<or> le_zero (close r)"

definition remove_invalid :: "raw_bar list \<Rightarrow> raw_bar list" where
  "remove_invalid df =
     (if length (filter invalid_prices df) > 0
      then filter (\<lambda>r. \<not> invalid_prices r) df
      else df)"

text \<open>Lines 106 to 111: the boolean mask of the last selection.\<close>

definition price_logic :: "raw_bar \<Rightarrow> bool" where
  "price_logic r \<longleftrightarrow> ge (high r) (low r) \<and> ge (high r) (open r) \<and> ge (high r) (close r)"

text \<open>\<^verbatim>\<open>clean_stock_data(df)\<close>, step by step as the source has it.\<close>

definition clean_stock_data :: "raw_bar list \<Rightarrow> raw_bar list" where
  "clean_stock_data df =
     (let df1 = drop_duplicates df;
          df2 = sort_values_date df1;
          df3 = handle_missing df2;
          df4 = remove_invalid df3
      in filter price_logic df4)"

text \<open>Example rows of one symbol, used to evaluate the definitions.\<close>

definition B :: "int \<Rightarrow> 'a \<Rightarrow> 'a \<Rightarrow> 'a \<Rightarrow> 'a \<Rightarrow> 'a \<Rightarrow> 'a bar" where
  "B d o' h l c v =
     \<lparr>symbol = ''AAPL'', date = d, open = o', high = h, low = l, close = c, volume = v\<rparr>"

definition dirty_frame :: "raw_bar list" where
  "dirty_frame =
     [B 3 (Some 102) None (Some 97) (Some 105) (Some 5),
      B 1 (Some 100) (Some 105) (Some 95) (Some 103) (Some 1),
      B 1 (Some 100.5) (Some 105) (Some 95) (Some 103) (Some 1),
      B 2 None (Some 106) (Some 96) (Some 104) None,
      B 4 (Some (-1)) (Some 106) (Some 96) (Some 104) None]"

definition cleaned_frame :: "raw_bar list" where
  "cleaned_frame =
     [B 1 (Some 100) (Some 105) (Some 95) (Some 103) (Some 1),
      B 2 (Some 100) (Some 106) (Some 96) (Some 104) (Some 0),
      B 3 (Some 102) (Some 106) (Some 97) (Some 105) (Some 5)]"

definition rejected_frame :: "raw_bar list" where
  "rejected_frame = [B 1 (Some 100) (Some 95) (Some 105) (Some 103) (Some 1)]"

section \<open>The store and the sync controller (utils/database.py, data/realtime_updater.py)\<close>

text \<open>
  A table of the database as the code sees it: its rows in insertion order, and whether
  the engine can be reached. The tables have a surrogate primary key \<^verbatim>\<open>id\<close> and no
  unique constraint on (symbol, date), so a table is a list, not a map. When the engine
  cannot be reached every statement raises; the flag does not change during a run.
\<close>

record 'r table =
  rows :: "'r list"
  reachable :: bool

datatype db_error = SQLAlchemyError

text \<open>The records the functions write to the log, one constructor per logging call.\<close>

datatype event =
    ErrorExecutingQuery
  | ErrorGettingLatestDate string
  | NoExistingData string
  | UpToDate string int
  | DataIsOld string int
  | Fetching string int int
  | NoNewDataFound string
  | Fetched string nat
  | ErrorFetching string
  | NoNewDataAvailable string
  | Inserted nat
  | ErrorInserting
  | Updated string nat
  | ErrorUpdating string
  | StartingUpdate bool
  | Processing string nat nat
  | UpdateCompleted nat nat
  | SavedCleaned string nat
  | NoCleanedData string
  | ErrorSavingCleaned

text \<open>
  \<^verbatim>\<open>insert_dataframe(df, table_name)\<close> is \<^verbatim>\<open>df.to_sql(table_name, engine,
  if_exists='append', index=False)\<close>: the rows of the frame are appended to the table. An
  error of the engine is logged and raised again.
\<close>

definition insert_dataframe :: "'r list \<Rightarrow> 'r table \<Rightarrow> (db_error + 'r table) \<times> event list" where
  "insert_dataframe df t =
     (if reachable t then (Inr (t\<lparr>rows := rows t @ df\<rparr>), [Inserted (length df)])
      else (Inl SQLAlchemyError, [ErrorInserting]))"

text \<open>
  \<^verbatim>\<open>execute_query("SELECT MAX(date) FROM stocks WHERE symbol = :symbol").scalar()\<close>:
  the largest date among the rows of the symbol, NULL (\<open>None\<close>) when there is none.
\<close>

definition select_max_date :: "'a bar table \<Rightarrow> string \<Rightarrow> (db_error + int option) \<times> event list" where
  "select_max_date t symb =
     (if reachable t
      then (Inr (case map date (filter (\<lambda>r. symbol r = symb) (rows t)) of
                   [] \<Rightarrow> None
                 | d # ds \<Rightarrow> Some (fold max ds d)), [])
      else (Inl SQLAlchemyError, [ErrorExecutingQuery]))"

text \<open>\<^verbatim>\<open>get_latest_data_date(symbol)\<close>: an error of the query is logged and becomes \<open>None\<close>.\<close>

definition get_latest_data_date :: "'a bar table \<Rightarrow> string \<Rightarrow> int option \<times> event list" where
  "get_latest_data_date t symb =
     (case select_max_date t symb of
        (Inr latest_date, lg) \<Rightarrow> (latest_date, lg)
      | (Inl e, lg) \<Rightarrow> (None, lg @ [ErrorGettingLatestDate symb]))"

text \<open>
  The price provider: \<^verbatim>\<open>yf.Ticker(symbol).history(start=..., end=...)\<close> either raises
  or returns a frame, which may be empty. The arguments of each call are recorded.
\<close>

datatype 'a reply = Raises | Frame "'a bar list"

type_synonym 'a provider = "string \<Rightarrow> int \<Rightarrow> int \<Rightarrow> 'a reply"

type_synonym request = "string \<times> int \<times> int"

definition MAX_DAYS_BACK :: int where
  "MAX_DAYS_BACK = 365"

text \<open>
  \<^verbatim>\<open>fetch_latest_data(symbol, days_back)\<close>. \<open>today\<close> is \<^verbatim>\<open>datetime.now().date()\<close>.
  The window starts \<open>days_back\<close> days before today; the provider's \<open>end\<close> is exclusive,
  so \<open>today + 1\<close> is passed to have today included. The symbol column is set on every
  returned row. Any exception is logged and becomes the empty frame.
\<close>

definition fetch_latest_data ::
  "'a provider \<Rightarrow> int \<Rightarrow> string \<Rightarrow> int \<Rightarrow> 'a bar list \<times> request list \<times> event list" where
  "fetch_latest_data yf today symb days_back =
     (let end_date = today;
          start_date = end_date - days_back;
          call = (symb, start_date, end_date + 1)
      in case yf symb start_date (end_date + 1) of
           Raises \<Rightarrow> ([], [call], [Fetching symb start_date end_date, ErrorFetching symb])
         | Frame data \<Rightarrow>
             if data = [] then ([], [call], [Fetching symb start_date end_date, NoNewDataFound symb])
             else (let data' = map (\<lambda>r. r\<lparr>symbol := symb\<rparr>) data
                   in (data', [call], [Fetching symb start_date end_date, Fetched symb (length data')])))"

text \<open>The result of one sync: the returned flag, the table afterwards, the calls made to
  the provider and the log records written.\<close>

record 'a sync_result =
  success :: bool
  table :: "'a bar table"
  requests :: "request list"
  logged :: "event list"

text \<open>
  Lines 140 to 154 of \<^verbatim>\<open>update_stock_data\<close>, once \<open>days_back\<close> is known: fetch, give
  up on an empty frame, otherwise drop duplicate keys within the fetched frame and append
  it to the table. An exception of the insert is caught by the function's handler.
\<close>

definition fetch_and_insert ::
  "'a provider \<Rightarrow> int \<Rightarrow> string \<Rightarrow> int \<Rightarrow> 'a bar table \<Rightarrow> event list \<Rightarrow> 'a sync_result" where
  "fetch_and_insert yf today symb days_back t lg =
     (case fetch_latest_data yf today symb days_back of (new_data, calls, lg1) \<Rightarrow>
        if new_data = []
        then \<lparr>success = False, table = t, requests = calls,
               logged = lg @ lg1 @ [NoNewDataAvailable symb]\<rparr>
        else (let new_data' = drop_duplicates new_data
              in case insert_dataframe new_data' t of
                   (Inr t', lg2) \<Rightarrow>
                     \<lparr>success = True, table = t', requests = calls,
                      logged = lg @ lg1 @ lg2 @ [Updated symb (length new_data')]\<rparr>
                 | (Inl e, lg2) \<Rightarrow>
                     \<lparr>success = False, table = t, requests = calls,
                      logged = lg @ lg1 @ lg2 @ [ErrorUpdating symb]\<rparr>))"

text \<open>\<^verbatim>\<open>update_stock_data(symbol, force_update)\<close>.\<close>

definition update_stock_data ::
  "'a provider \<Rightarrow> int \<Rightarrow> string \<Rightarrow> bool \<Rightarrow> 'a bar table \<Rightarrow> 'a sync_result" where
  "update_stock_data yf today symb force_update t =
     (case get_latest_data_date t symb of (latest_db_date, lg) \<Rightarrow>
        case latest_db_date of
          None \<Rightarrow> fetch_and_insert yf today symb MAX_DAYS_BACK t (lg @ [NoExistingData symb])
        | Some d \<Rightarrow>
            (let days_since_update = today - d
             in if days_since_update = 0 \<and> \<not> force_update
                then \<lparr>success = True, table = t, requests = [], logged = lg @ [UpToDate symb d]\<rparr>
                else fetch_and_insert yf today symb (min (days_since_update + 2) MAX_DAYS_BACK) t
                       (lg @ (if days_since_update > 7 \<and> \<not> force_update
                              then [DataIsOld symb days_since_update] else []))))"

text \<open>
  The loop of \<^verbatim>\<open>update_all_stocks\<close> over the tickers, from position \<open>i\<close> of
  \<open>total_count\<close>, with the success count, the table, the calls and the log so far.
\<close>

fun update_loop ::
  "'a provider \<Rightarrow> int \<Rightarrow> bool \<Rightarrow> nat \<Rightarrow> nat \<Rightarrow> string list \<Rightarrow>
   nat \<times> 'a bar table \<times> request list \<times> event list \<Rightarrow>
   nat \<times> 'a bar table \<times> request list \<times> event list" where
  "update_loop yf today force_update total_count i [] st = st"
| "update_loop yf today force_update total_count i (symb # rest) (success_count, t, calls, lg) =
     (let r = update_stock_data yf today symb force_update t
      in update_loop yf today force_update total_count (i + 1) rest
           (if success r then success_count + 1 else success_count,
            table r, calls @ requests r, lg @ [Processing symb i total_count] @ logged r))"

text \<open>
  \<^verbatim>\<open>update_all_stocks(force_update)\<close>. The source iterates over the module constant
  \<^verbatim>\<open>TOP_50_TICKERS\<close>; \<open>update_all_over\<close> takes the list as a parameter and
  \<open>update_all_stocks\<close> fixes it to the configured one. The function returns nothing:
  the counts are reported in the last log record. The result here is the table, the calls
  and the log. The pause between two symbols has no effect on the result.
\<close>

definition update_all_over ::
  "string list \<Rightarrow> 'a provider \<Rightarrow> int \<Rightarrow> bool \<Rightarrow> 'a bar table \<Rightarrow>
   'a bar table \<times> request list \<times> event list" where
  "update_all_over tickers yf today force_update t =
     (let total_count = length tickers
      in case update_loop yf today force_update total_count 1 tickers
                (0, t, [], [StartingUpdate force_update]) of
           (success_count, t', calls, lg) \<Rightarrow>
             (t', calls, lg @ [UpdateCompleted success_count total_count]))"

definition TOP_50_TICKERS :: "string list" where
  "TOP_50_TICKERS =
     [''AAPL'', ''MSFT'', ''GOOGL'', ''AMZN'', ''NVDA'', ''META'', ''TSLA'', ''BRK.B'', ''UNH'', ''JPM'',
      ''V'', ''XOM'', ''LLY'', ''AVGO'', ''JNJ'', ''WMT'', ''MA'', ''PG'', ''CVX'', ''MRK'',
      ''HD'', ''COST'', ''ABBV'', ''ADBE'', ''PEP'', ''BAC'', ''KO'', ''PFE'', ''NFLX'', ''TMO'',
      ''DIS'', ''ABT'', ''CSCO'', ''MCD'', ''CRM'', ''ACN'', ''DHR'', ''LIN'', ''VZ'', ''WFC'',
      ''INTC'', ''TXN'', ''NEE'', ''PM'', ''BMY'', ''UNP'', ''HON'', ''ORCL'', ''AMGN'', ''IBM'']"

definition update_all_stocks ::
  "'a provider \<Rightarrow> int \<Rightarrow> bool \<Rightarrow> 'a bar table \<Rightarrow> 'a bar table \<times> request list \<times> event list" where
  "update_all_stocks = update_all_over TOP_50_TICKERS"




definition provider_empty :: "'a provider \<Rightarrow> request list \<Rightarrow> bool" where
  "provider_empty yf calls = list_ex (\<lambda>(s, a, b). yf s a b = Frame []) calls"





text \<open>Example store and providers, used to evaluate the definitions.\<close>

definition stored :: "int bar table" where
  "stored = \<lparr>rows = [B 8 100 105 95 103 1], reachable = True\<rparr>"



definition silent_provider :: "int provider" where
  "silent_provider symb a b = Frame []"


section \<open>The order selector (models/arima_forecaster.py)\<close>

type_synonym order = "int \<times> int \<times> int"

definition ARIMA_ORDER :: order where
  "ARIMA_ORDER = (1, 1, 1)"

text \<open>
  The candidates in the order in which the three nested loops of
  \<^verbatim>\<open>find_optimal_arima_order\<close> visit them: \<^verbatim>\<open>range(0, max_p + 1)\<close> outermost, then
  \<^verbatim>\<open>range(0, max_d + 1)\<close>, then \<^verbatim>\<open>range(0, max_q + 1)\<close>. A range with a negative bound
  is empty.
\<close>

definition grid :: "int \<Rightarrow> int \<Rightarrow> int \<Rightarrow> order list" where
  "grid max_p max_d max_q =
     concat (map (\<lambda>p. concat (map (\<lambda>d. map (\<lambda>q. (p, d, q)) [0..max_q]) [0..max_d])) [0..max_p])"

text \<open>
  The body of the innermost loop. Fitting is statsmodels' \<^verbatim>\<open>ARIMA(timeseries,
  order).fit()\<close>, a parameter here: \<open>None\<close> when the fit raises (the bare \<^verbatim>\<open>except\<close>
  continues with the next candidate), otherwise the AIC of the fitted model, taken to be a
  finite number. \<open>best_aic\<close> starts as \<^verbatim>\<open>np.inf\<close>, which is \<open>None\<close> here: every
  finite AIC is below it. The comparison is strict.
\<close>

fun search_step ::
  "(order \<Rightarrow> real option) \<Rightarrow> real option \<times> order option \<Rightarrow> order \<Rightarrow> real option \<times> order option" where
  "search_step fit (best_aic, best_order) cand =
     (case fit cand of
        None \<Rightarrow> (best_aic, best_order)
      | Some aic \<Rightarrow>
          if (case best_aic of None \<Rightarrow> True | Some b \<Rightarrow> aic < b)
          then (Some aic, Some cand)
          else (best_aic, best_order))"

text \<open>\<^verbatim>\<open>find_optimal_arima_order(timeseries, max_p, max_d, max_q)\<close>.\<close>

definition find_optimal_arima_order ::
  "(real list \<Rightarrow> order \<Rightarrow> real option) \<Rightarrow> real list \<Rightarrow> int \<Rightarrow> int \<Rightarrow> int \<Rightarrow> order" where
  "find_optimal_arima_order fit timeseries max_p max_d max_q =
     (case snd (fold (\<lambda>cand best. search_step (fit timeseries) best cand)
                  (grid max_p max_d max_q) (None, None)) of
        None \<Rightarrow> ARIMA_ORDER
      | Some best_order \<Rightarrow> best_order)"

text \<open>The order of iteration: \<open>p\<close> first, then \<open>d\<close>, then \<open>q\<close>.\<close>

definition visited_before :: "order \<Rightarrow> order \<Rightarrow> bool" where
  "visited_before a b =
     (case (a, b) of
        ((p, d, q), (p', d', q')) \<Rightarrow> p < p' \<or> (p = p' \<and> (d < d' \<or> (d = d' \<and> q < q'))))"

text \<open>
  Position \<open>i\<close> holds the first candidate of the list whose fit succeeds with the lowest
  AIC: no successful candidate has a lower AIC, and every successful candidate before it
  has a higher one.
\<close>

definition first_best :: "(order \<Rightarrow> real option) \<Rightarrow> order list \<Rightarrow> nat \<Rightarrow> bool" where
  "first_best fit cands i \<longleftrightarrow>
     i < length cands \<and>
     (\<exists>a. fit (cands ! i) = Some a \<and>
          (\<forall>j < length cands. \<forall>b. fit (cands ! j) = Some b \<longrightarrow> a \<le> b \<and> (j < i \<longrightarrow> a < b)))"

text \<open>Example fits, used to evaluate the definitions.\<close>

definition tied_fit :: "real list \<Rightarrow> order \<Rightarrow> real option" where
  "tied_fit ts cand =
     (if cand = (0, 0, 1) then Some 12
      else if cand = (0, 1, 0) then Some 7
      else if cand = (1, 0, 1) then Some 7
      else if cand = (1, 1, 1) then Some 9
      else None)"

definition failing_fit :: "real list \<Rightarrow> order \<Rightarrow> real option" where
  "failing_fit ts cand = None"

section \<open>Computed cells\<close>

text \<open>
  The value of a computed floating-point cell: a finite number, an infinity or NaN. The
  operations follow IEEE 754 on the special values and are exact on finite ones; the sign
  of a zero is not kept, so a non-zero number divided by zero is the infinity of the
  sign of the numerator.
\<close>

datatype fval = Fin real | PInf | NInf | NaN

definition cell :: "real option \<Rightarrow> fval" where
  "cell x = (case x of None \<Rightarrow> NaN | Some v \<Rightarrow> Fin v)"

fun fneg :: "fval \<Rightarrow> fval" where
  "fneg (Fin a) = Fin (- a)"
| "fneg PInf = NInf"
| "fneg NInf = PInf"
| "fneg NaN = NaN"

fun fadd :: "fval \<Rightarrow> fval \<Rightarrow> fval" where
  "fadd (Fin a) (Fin b) = Fin (a + b)"
| "fadd NaN y = NaN"
| "fadd x NaN = NaN"
| "fadd PInf NInf = NaN"
| "fadd NInf PInf = NaN"
| "fadd PInf y = PInf"
| "fadd x PInf = PInf"
| "fadd NInf y = NInf"
| "fadd x NInf = NInf"

definition fsub :: "fval \<Rightarrow> fval \<Rightarrow> fval" where
  "fsub x y = fadd x (fneg y)"

fun fmul :: "fval \<Rightarrow> fval \<Rightarrow> fval" where
  "fmul (Fin a) (Fin b) = Fin (a * b)"
| "fmul NaN y = NaN"
| "fmul x NaN = NaN"
| "fmul PInf (Fin b) = (if b = 0 then NaN else if 0 < b then PInf else NInf)"
| "fmul NInf (Fin b) = (if b = 0 then NaN else if 0 < b then NInf else PInf)"
| "fmul (Fin a) PInf = (if a = 0 then NaN else if 0 < a then PInf else NInf)"
| "fmul (Fin a) NInf = (if a = 0 then NaN else if 0 < a then NInf else PInf)"
| "fmul PInf PInf = PInf"
| "fmul NInf NInf = PInf"
| "fmul PInf NInf = NInf"
| "fmul NInf PInf = NInf"

fun fdiv :: "fval \<Rightarrow> fval \<Rightarrow> fval" where
  "fdiv (Fin a) (Fin b) =
     (if b = 0 then (if a = 0 then NaN else if 0 < a then PInf else NInf) else Fin (a / b))"
| "fdiv NaN y = NaN"
| "fdiv x NaN = NaN"
| "fdiv (Fin a) PInf = Fin 0"
| "fdiv (Fin a) NInf = Fin 0"
| "fdiv PInf (Fin b) = (if 0 \<le> b then PInf else NInf)"
| "fdiv NInf (Fin b) = (if 0 \<le> b then NInf else PInf)"
| "fdiv PInf y = NaN"
| "fdiv NInf y = NaN"

fun fless :: "fval \<Rightarrow> fval \<Rightarrow> bool" where
  "fless (Fin a) (Fin b) \<longleftrightarrow> a < b"
| "fless NaN y \<longleftrightarrow> False"
| "fless x NaN \<longleftrightarrow> False"
| "fless PInf y \<longleftrightarrow> False"
| "fless x NInf \<longleftrightarrow> False"
| "fless NInf y \<longleftrightarrow> True"
| "fless x PInf \<longleftrightarrow> True"

fun fsqrt :: "fval \<Rightarrow> fval" where
  "fsqrt (Fin a) = (if a < 0 then NaN else Fin (sqrt a))"
| "fsqrt PInf = PInf"
| "fsqrt NInf = NaN"
| "fsqrt NaN = NaN"

definition fsum :: "fval list \<Rightarrow> fval" where
  "fsum xs = fold (\<lambda>x acc. fadd acc x) xs (Fin 0)"

text \<open>Cells that are finite or NaN, and cells that are finite and not negative.\<close>

definition fin_or_nan :: "fval \<Rightarrow> bool" where
  "fin_or_nan x \<longleftrightarrow> x = NaN \<or> (\<exists>v. x = Fin v)"

definition nonneg_fin :: "fval \<Rightarrow> bool" where
  "nonneg_fin x \<longleftrightarrow> (\<exists>v. x = Fin v \<and> 0 \<le> v)"

section \<open>Columns (pandas Series operations)\<close>

text \<open>
  \<^verbatim>\<open>s.shift(n)\<close>: position \<open>i\<close> takes the value of position \<open>i - n\<close>, NaN when there
  is none. \<open>n\<close> may be negative.
\<close>

definition shift :: "int \<Rightarrow> fval list \<Rightarrow> fval list" where
  "shift n xs =
     map (\<lambda>i. let j = int i - n in if 0 \<le> j \<and> j < int (length xs) then xs ! nat j else NaN)
       [0..<length xs]"

text \<open>\<^verbatim>\<open>s.diff()\<close> is \<^verbatim>\<open>s - s.shift(1)\<close>.\<close>

definition diff :: "fval list \<Rightarrow> fval list" where
  "diff xs = map (\<lambda>(x, p). fsub x p) (zip xs (shift 1 xs))"

text \<open>\<^verbatim>\<open>s.fillna(method='pad')\<close> on a column of computed cells.\<close>

fun pad_col :: "fval \<Rightarrow> fval list \<Rightarrow> fval list" where
  "pad_col prev [] = []"
| "pad_col prev (x # xs) = (if x = NaN then prev # pad_col prev xs else x # pad_col x xs)"

text \<open>
  \<^verbatim>\<open>s.pct_change()\<close>: missing values are padded first (the default
  \<^verbatim>\<open>fill_method='pad'\<close>), then \<^verbatim>\<open>data / data.shift(1) - 1\<close>.
\<close>

definition pct_change :: "fval list \<Rightarrow> fval list" where
  "pct_change xs =
     (let data = pad_col NaN xs
      in map (\<lambda>(x, p). fsub (fdiv x p) (Fin 1)) (zip data (shift 1 data)))"

text \<open>
  The window of \<^verbatim>\<open>s.rolling(window=w)\<close> at position \<open>i\<close>: the \<open>w\<close> values ending at
  \<open>i\<close>. With the default \<^verbatim>\<open>min_periods = w\<close> the result is NaN when fewer than \<open>w\<close>
  values precede and include \<open>i\<close>, or when one of them is NaN.
\<close>

definition window :: "nat \<Rightarrow> fval list \<Rightarrow> nat \<Rightarrow> fval list option" where
  "window w xs i =
     (if i + 1 < w then None
      else (let win = take w (drop (i + 1 - w) xs)
            in if NaN \<in> set win then None else Some win))"

definition rolling_mean :: "nat \<Rightarrow> fval list \<Rightarrow> fval list" where
  "rolling_mean w xs =
     map (\<lambda>i. case window w xs i of
                 None \<Rightarrow> NaN
               | Some win \<Rightarrow> fdiv (fsum win) (Fin (real w)))
       [0..<length xs]"

text \<open>\<^verbatim>\<open>s.rolling(window=w).std()\<close>, the sample standard deviation (\<^verbatim>\<open>ddof=1\<close>).\<close>

definition rolling_std :: "nat \<Rightarrow> fval list \<Rightarrow> fval list" where
  "rolling_std w xs =
     map (\<lambda>i. case window w xs i of
                 None \<Rightarrow> NaN
               | Some win \<Rightarrow>
                   (let m = fdiv (fsum win) (Fin (real w));
                        ss = fsum (map (\<lambda>x. fmul (fsub x m) (fsub x m)) win)
                    in fsqrt (fdiv ss (Fin (real w - 1)))))
       [0..<length xs]"

section \<open>The feature engine (data/data_cleaner.py)\<close>

text \<open>
  The columns written to \<^verbatim>\<open>stocks_clean\<close> come first, then the columns that
  \<^verbatim>\<open>engineer_features\<close> adds and \<^verbatim>\<open>save_cleaned_data\<close> does not select.
\<close>

record saved_row = "real option bar" +
  ma_5 :: fval
  ma_10 :: fval
  ma_20 :: fval
  daily_return :: fval

record feature_row = saved_row +
  price_range :: fval
  price_range_pct :: fval
  volume_ma_5 :: fval
  volatility_5 :: fval
  volatility_10 :: fval
  rsi :: fval

text \<open>
  The local series \<^verbatim>\<open>delta\<close>, \<^verbatim>\<open>gain\<close>, \<^verbatim>\<open>loss\<close> and the column \<^verbatim>\<open>rsi\<close> of lines
  154 to 158. \<^verbatim>\<open>delta.where(delta > 0, 0)\<close> keeps a value where the condition is true and
  puts 0 elsewhere, also where \<open>delta\<close> is NaN.
\<close>

definition rsi_gain :: "fval list \<Rightarrow> fval list" where
  "rsi_gain closes =
     rolling_mean 14 (map (\<lambda>d. if fless (Fin 0) d then d else Fin 0) (diff closes))"

definition rsi_loss :: "fval list \<Rightarrow> fval list" where
  "rsi_loss closes =
     rolling_mean 14 (map (\<lambda>d. fneg (if fless d (Fin 0) then d else Fin 0)) (diff closes))"

definition rsi_of :: "fval \<Rightarrow> fval \<Rightarrow> fval" where
  "rsi_of gain loss = (let rs = fdiv gain loss in fsub (Fin 100) (fdiv (Fin 100) (fadd (Fin 1) rs)))"

definition rsi_col :: "fval list \<Rightarrow> fval list" where
  "rsi_col closes = map (\<lambda>(gain, loss). rsi_of gain loss) (zip (rsi_gain closes) (rsi_loss closes))"

text \<open>
  \<^verbatim>\<open>engineer_features(df)\<close>: every column is aligned with the rows of the frame. The
  loop over \<^verbatim>\<open>MOVING_AVERAGE_PERIODS = [5, 10, 20]\<close> adds the three moving averages.
\<close>

definition engineer_features :: "raw_bar list \<Rightarrow> feature_row list" where
  "engineer_features df =
     (let closes = map (\<lambda>r. cell (close r)) df;
          volumes = map (\<lambda>r. cell (volume r)) df;
          returns = map (\<lambda>x. fmul x (Fin 100)) (pct_change closes);
          ranges = map (\<lambda>r. fsub (cell (high r)) (cell (low r))) df
      in map (\<lambda>i.
            \<lparr>symbol = symbol (df ! i), date = date (df ! i), open = open (df ! i),
             high = high (df ! i), low = low (df ! i), close = close (df ! i),
             volume = volume (df ! i),
             ma_5 = rolling_mean 5 closes ! i,
             ma_10 = rolling_mean 10 closes ! i,
             ma_20 = rolling_mean 20 closes ! i,
             daily_return = returns ! i,
             price_range = ranges ! i,
             price_range_pct = fmul (fdiv (ranges ! i) (closes ! i)) (Fin 100),
             volume_ma_5 = rolling_mean 5 volumes ! i,
             volatility_5 = rolling_std 5 returns ! i,
             volatility_10 = rolling_std 10 returns ! i,
             rsi = rsi_col closes ! i\<rparr>)
           [0..<length df])"

text \<open>\<^verbatim>\<open>df.dropna()\<close> drops a row when any of its cells is missing.\<close>

definition isna_row :: "feature_row \<Rightarrow> bool" where
  "isna_row r \<longleftrightarrow>
     open r = None \<or> high r = None \<or> low r = None \<or> close r = None \<or> volume r = None \<or>
     ma_5 r = NaN \<or> ma_10 r = NaN \<or> ma_20 r = NaN \<or> daily_return r = NaN \<or>
     price_range r = NaN \<or> price_range_pct r = NaN \<or> volume_ma_5 r = NaN \<or>
     volatility_5 r = NaN \<or> volatility_10 r = NaN \<or> rsi r = NaN"

text \<open>The selection \<^verbatim>\<open>df[available_columns]\<close> of the eleven columns that are saved.\<close>

definition columns_to_save :: "feature_row \<Rightarrow> saved_row" where
  "columns_to_save r =
     \<lparr>symbol = symbol r, date = date r, open = open r, high = high r, low = low r,
      close = close r, volume = volume r,
      ma_5 = ma_5 r, ma_10 = ma_10 r, ma_20 = ma_20 r, daily_return = daily_return r\<rparr>"

text \<open>
  \<^verbatim>\<open>save_cleaned_data(df, symbol)\<close> on the \<^verbatim>\<open>stocks_clean\<close> table. An error of the
  insert is logged and raised again.
\<close>

definition save_cleaned_data ::
  "feature_row list \<Rightarrow> string \<Rightarrow> saved_row table \<Rightarrow> (db_error + saved_row table) \<times> event list" where
  "save_cleaned_data df symb t =
     (if df \<noteq> []
      then (let df1 = filter (\<lambda>r. \<not> isna_row r) df;
                df_to_save = drop_duplicates (map columns_to_save df1)
            in case insert_dataframe df_to_save t of
                 (Inr t', lg) \<Rightarrow> (Inr t', lg @ [SavedCleaned symb (length df_to_save)])
               | (Inl e, lg) \<Rightarrow> (Inl e, lg @ [ErrorSavingCleaned]))
      else (Inr t, [NoCleanedData symb]))"

section \<open>The label constructor (models/random_forest_predictor.py)\<close>

text \<open>A row of the frame returned by \<^verbatim>\<open>create_target_variable\<close>: the input row and the
  three added columns. \<^verbatim>\<open>target\<close> is an integer column; its cell is an option so that
  \<^verbatim>\<open>dropna\<close> has something to test.\<close>

record 'r labelled =
  source :: 'r
  future_price :: fval
  price_change_pct :: fval
  target :: "int option"

text \<open>
  \<^verbatim>\<open>create_target_variable(df, days_ahead)\<close>. The comparison \<^verbatim>\<open>price_change_pct > 2\<close> is
  false on NaN, and \<^verbatim>\<open>astype(int)\<close> turns the booleans into 1 and 0, so every target
  cell is present when \<^verbatim>\<open>dropna(subset=['target'])\<close> runs.
\<close>

definition create_target_variable ::
  "(real option, 'b) bar_scheme list \<Rightarrow> int \<Rightarrow> (real option, 'b) bar_scheme labelled list" where
  "create_target_variable df days_ahead =
     (let closes = map (\<lambda>r. cell (close r)) df;
          future = shift (- days_ahead) closes;
          change = map (\<lambda>(f, c). fmul (fdiv (fsub f c) c) (Fin 100)) (zip future closes);
          labelled = map (\<lambda>i.
            \<lparr>source = df ! i, future_price = future ! i, price_change_pct = change ! i,
             target = Some (if fless (Fin 2) (change ! i) then 1 else 0)\<rparr>) [0..<length df]
      in filter (\<lambda>r. target r \<noteq> None) labelled)"

text \<open>Example frames, used to evaluate the definitions.\<close>

definition closes_frame :: "real list \<Rightarrow> raw_bar list" where
  "closes_frame cs =
     map (\<lambda>(i, c). B (int i) (Some c) (Some c) (Some c) (Some c) (Some 1000)) (enumerate 0 cs)"

definition spec_closes :: "real list" where
  "spec_closes = [100, 102, 105, 98, 110]"

definition flat_closes :: "real list" where
  "flat_closes = [100, 100, 100, 100, 100, 100, 100, 100, 100, 100, 100, 100, 100, 100]"

definition doubling_closes :: "real list" where
  "doubling_closes =
     [1, 2, 4, 8, 16, 32, 64, 128, 256, 512, 1024, 2048, 4096, 8192, 16384, 32768, 65536,
      131072, 262144, 524288, 1048576]"

definition empty_table :: "saved_row table" where
  "empty_table = \<lparr>rows = [], reachable = True\<rparr>"

section \<open>Properties of the cleaning stage\<close>

lemma set_drop_duplicates_subset: "set (drop_duplicates xs) \<subseteq> set xs"
  by (induction xs rule: drop_duplicates.induct) auto

lemma keys_drop_duplicates: "key ` set (drop_duplicates xs) = key ` set xs"
  by (induction xs rule: drop_duplicates.induct) auto

lemma distinct_drop_duplicates: "distinct (map key (drop_duplicates xs))"
proof (induction xs rule: drop_duplicates.induct)
  case 1
  then show ?case by simp
next
  case (2 r rs)
  have "key r \<notin> key ` set (drop_duplicates (filter (\<lambda>x. key x \<noteq> key r) rs))"
    using set_drop_duplicates_subset[of "filter (\<lambda>x. key x \<noteq> key r) rs"] by auto
  with 2 show ?case by simp
qed

lemma drop_duplicates_id: "distinct (map key xs) \<Longrightarrow> drop_duplicates xs = xs"
proof (induction xs)
  case Nil
  then show ?case by simp
next
  case (Cons r rs)
  from Cons.prems have "filter (\<lambda>x. key x \<noteq> key r) rs = rs"
    by (auto simp: filter_id_conv image_iff)
  with Cons show ?case by simp
qed

lemma distinct_keys_insort:
  "distinct (map key (insort_key date x xs)) \<longleftrightarrow> key x \<notin> key ` set xs \<and> distinct (map key xs)"
  by (induction xs) (auto simp: set_insort_key)

lemma distinct_keys_sort: "distinct (map key (sort_values_date xs)) \<longleftrightarrow> distinct (map key xs)"
  unfolding sort_values_date_def
  by (induction xs) (auto simp: distinct_keys_insort)

lemma ffill_keys: "map key (ffill p xs) = map key xs"
  by (induction p xs rule: ffill.induct) (auto simp: key_def Let_def)

lemma ffill_dates: "map date (ffill p xs) = map date xs"
  by (induction p xs rule: ffill.induct) (auto simp: Let_def)

lemma handle_missing_keys: "map key (handle_missing xs) = map key xs"
proof -
  have "key \<circ> fillna_volume = key"
    by (rule ext) (simp add: key_def fillna_volume_def)
  then show ?thesis by (simp add: handle_missing_def ffill_keys)
qed

lemma handle_missing_dates: "map date (handle_missing xs) = map date xs"
proof -
  have "date \<circ> fillna_volume = date"
    by (rule ext) (simp add: fillna_volume_def)
  then show ?thesis by (simp add: handle_missing_def ffill_dates)
qed

lemma remove_invalid_filter: "remove_invalid df = filter (\<lambda>r. \<not> invalid_prices r) df"
  by (auto simp: remove_invalid_def filter_id_conv filter_empty_conv)

lemma clean_stock_data_filter:
  "clean_stock_data df =
     filter (\<lambda>r. \<not> invalid_prices r \<and> price_logic r)
       (handle_missing (sort_values_date (drop_duplicates df)))"
  by (simp add: clean_stock_data_def remove_invalid_filter Let_def conj_commute)

lemma accepted_prices:
  assumes "\<not> invalid_prices r" and "price_logic r"
  shows "\<exists>o' h l c. open r = Some o' \<and> high r = Some h \<and> low r = Some l \<and> close r = Some c
           \<and> 0 < o' \<and> 0 < h \<and> 0 < l \<and> 0 < c \<and> l \<le> h \<and> o' \<le> h \<and> c \<le> h"
  using assms
  by (auto simp: invalid_prices_def price_logic_def le_zero_def ge_def split: option.splits)

lemma accepted_not_null:
  assumes "\<not> invalid_prices r" and "price_logic r"
  shows "open r \<noteq> None \<and> high r \<noteq> None \<and> low r \<noteq> None \<and> close r \<noteq> None"
  using accepted_prices[OF assms] by auto

lemma sorted_clean: "sorted (map date (clean_stock_data df))"
proof -
  have "sorted (map date (handle_missing (sort_values_date (drop_duplicates df))))"
    by (simp add: handle_missing_dates sort_values_date_def)
  then show ?thesis
    unfolding clean_stock_data_filter by (rule sorted_filter)
qed

lemma distinct_clean: "distinct (map key (clean_stock_data df))"
proof -
  have "distinct (map key (handle_missing (sort_values_date (drop_duplicates df))))"
    by (simp add: handle_missing_keys distinct_keys_sort distinct_drop_duplicates)
  then show ?thesis
    unfolding clean_stock_data_filter by (rule distinct_map_filter)
qed

lemma handle_missing_volume:
  assumes "r \<in> set (handle_missing xs)"
  shows "volume r \<noteq> None"
proof (cases "list_ex isnull_any xs")
  case True
  with assms obtain r0 where "r = fillna_volume r0"
    by (auto simp: handle_missing_def)
  then show ?thesis
    by (simp add: fillna_volume_def split: option.splits)
next
  case False
  with assms have "r \<in> set xs"
    by (simp add: handle_missing_def)
  with False show ?thesis
    by (auto simp: list_ex_iff isnull_any_def)
qed

lemma clean_no_missing:
  assumes "r \<in> set (clean_stock_data df)"
  shows "\<not> isnull_any r"
proof -
  from assms have acc: "\<not> invalid_prices r" "price_logic r"
    and mem: "r \<in> set (handle_missing (sort_values_date (drop_duplicates df)))"
    by (auto simp: clean_stock_data_filter)
  from handle_missing_volume[OF mem] accepted_not_null[OF acc]
  show ?thesis by (simp add: isnull_any_def)
qed

lemma clean_fixpoint:
  assumes "distinct (map key ys)" and "sorted (map date ys)"
    and "\<forall>r \<in> set ys. \<not> isnull_any r \<and> \<not> invalid_prices r \<and> price_logic r"
  shows "clean_stock_data ys = ys"
proof -
  have 1: "drop_duplicates ys = ys"
    using assms(1) by (rule drop_duplicates_id)
  have 2: "sort_values_date ys = ys"
    unfolding sort_values_date_def using assms(2) by (rule sort_key_id_if_sorted)
  have 3: "handle_missing ys = ys"
    using assms(3) by (simp add: handle_missing_def list_ex_iff)
  have 4: "filter (\<lambda>r. \<not> invalid_prices r \<and> price_logic r) ys = ys"
    using assms(3) by (simp add: filter_id_conv)
  show ?thesis
    by (simp add: clean_stock_data_filter 1 2 3 4)
qed

lemmas clean_defs = clean_stock_data_def sort_values_date_def handle_missing_def
  remove_invalid_def price_logic_def invalid_prices_def isnull_any_def fillna_volume_def
  pad_def le_zero_def ge_def key_def

lemma clean_dirty_frame: "clean_stock_data dirty_frame = cleaned_frame"
  by (simp add: clean_defs B_def dirty_frame_def cleaned_frame_def)

lemma clean_rejected_frame: "clean_stock_data rejected_frame = []"
  by (simp add: clean_defs B_def rejected_frame_def)

text \<open>
  Claim C3. For every raw bar sequence, every row of the output of \<open>clean_stock_data\<close>
  has its open, high, low and close present and positive, with high at least low, open
  and close; the output is sorted ascending by date; it has no two rows with the same
  (symbol, date); and it is empty when every row of the deduplicated, sorted and filled
  frame is rejected by one of the two filters.
\<close>

theorem clean_stock_data_invariants:
  "(\<forall>r \<in> set (clean_stock_data df).
      \<exists>o' h l c. open r = Some o' \<and> high r = Some h \<and> low r = Some l \<and> close r = Some c
        \<and> 0 < o' \<and> 0 < h \<and> 0 < l \<and> 0 < c \<and> l \<le> h \<and> o' \<le> h \<and> c \<le> h)
   \<and> sorted (map date (clean_stock_data df))
   \<and> distinct (map key (clean_stock_data df))
   \<and> ((\<forall>r \<in> set (handle_missing (sort_values_date (drop_duplicates df))).
          invalid_prices r \<or> \<not> price_logic r) \<longrightarrow> clean_stock_data df = [])"
proof (intro conjI ballI impI)
  fix r assume "r \<in> set (clean_stock_data df)"
  then have "\<not> invalid_prices r" "price_logic r"
    by (auto simp: clean_stock_data_filter)
  then show "\<exists>o' h l c. open r = Some o' \<and> high r = Some h \<and> low r = Some l \<and> close r = Some c
        \<and> 0 < o' \<and> 0 < h \<and> 0 < l \<and> 0 < c \<and> l \<le> h \<and> o' \<le> h \<and> c \<le> h"
    by (rule accepted_prices)
next
  show "sorted (map date (clean_stock_data df))" by (rule sorted_clean)
  show "distinct (map key (clean_stock_data df))" by (rule distinct_clean)
next
  assume "\<forall>r \<in> set (handle_missing (sort_values_date (drop_duplicates df))).
          invalid_prices r \<or> \<not> price_logic r"
  then show "clean_stock_data df = []"
    by (auto simp: clean_stock_data_filter filter_empty_conv)
qed

theorem clean_stock_data_invariants_witness:
  "clean_stock_data dirty_frame = cleaned_frame
   \<and> high (hd cleaned_frame) = Some 105 \<and> low (hd cleaned_frame) = Some 95
   \<and> sorted (map date cleaned_frame) \<and> distinct (map key cleaned_frame)
   \<and> invalid_prices (B 4 (Some (-1)) (Some 106) (Some 96) (Some 104) (Some 0))
   \<and> \<not> price_logic (hd rejected_frame)
   \<and> clean_stock_data rejected_frame = []"
proof -
  have rej: "handle_missing (sort_values_date (drop_duplicates rejected_frame)) = rejected_frame"
    by (simp add: clean_defs B_def rejected_frame_def)
  have bad: "\<not> price_logic (hd rejected_frame)"
    by (simp add: clean_defs B_def rejected_frame_def)
  then have "\<forall>r \<in> set (handle_missing (sort_values_date (drop_duplicates rejected_frame))).
          invalid_prices r \<or> \<not> price_logic r"
    unfolding rej by (simp add: rejected_frame_def)
  with clean_stock_data_invariants[of rejected_frame]
  have empty: "clean_stock_data rejected_frame = []" by blast
  from clean_stock_data_invariants[of dirty_frame]
  have "sorted (map date cleaned_frame)" "distinct (map key cleaned_frame)"
    unfolding clean_dirty_frame by blast+
  moreover have "high (hd cleaned_frame) = Some 105" "low (hd cleaned_frame) = Some 95"
    by (simp_all add: cleaned_frame_def B_def)
  moreover have "invalid_prices (B 4 (Some (-1)) (Some 106) (Some 96) (Some 104) (Some 0))"
    by (simp add: clean_defs B_def)
  ultimately show ?thesis
    using clean_dirty_frame bad empty by simp
qed

text \<open>
  Claim C4. The cleaning stage is idempotent: cleaning the output of
  \<open>clean_stock_data\<close> again returns it unchanged, for every raw bar sequence.
\<close>

theorem clean_stock_data_idempotent:
  "clean_stock_data (clean_stock_data df) = clean_stock_data df"
proof (rule clean_fixpoint)
  show "distinct (map key (clean_stock_data df))" by (rule distinct_clean)
  show "sorted (map date (clean_stock_data df))" by (rule sorted_clean)
  show "\<forall>r \<in> set (clean_stock_data df). \<not> isnull_any r \<and> \<not> invalid_prices r \<and> price_logic r"
    using clean_no_missing by (auto simp: clean_stock_data_filter)
qed

section \<open>Properties of the sync controller\<close>

lemmas sync_defs = update_stock_data_def fetch_and_insert_def fetch_latest_data_def
  get_latest_data_date_def select_max_date_def insert_dataframe_def MAX_DAYS_BACK_def

lemma distinct_TOP_50_TICKERS: "distinct TOP_50_TICKERS"
  by (simp add: TOP_50_TICKERS_def)

text \<open>The latest stored date is the largest date among the rows of the symbol.\<close>

lemma fold_max_Max: "fold max ds (d::int) = Max (set (d # ds))"
  by (rule Max.set_eq_fold[symmetric])

lemma get_latest_data_date_reachable:
  assumes "reachable t"
  shows "fst (get_latest_data_date t symb) =
     (if filter (\<lambda>r. symbol r = symb) (rows t) = [] then None
      else Some (Max (date ` {r \<in> set (rows t). symbol r = symb})))"
proof (cases "map date (filter (\<lambda>r. symbol r = symb) (rows t))")
  case Nil
  with assms show ?thesis
    by (simp add: get_latest_data_date_def select_max_date_def)
next
  case (Cons d ds)
  then have "set (d # ds) = date ` {r \<in> set (rows t). symbol r = symb}"
    by (metis list.set_map set_filter)
  with Cons assms show ?thesis
    by (auto simp: get_latest_data_date_def select_max_date_def fold_max_Max simp del: set_simps)
qed

lemma get_latest_data_date_unreachable:
  "\<not> reachable t \<Longrightarrow> fst (get_latest_data_date t symb) = None"
  by (simp add: get_latest_data_date_def select_max_date_def)

subsection \<open>The second half of a sync\<close>

lemma fetch_requests:
  "fst (snd (fetch_latest_data yf today symb n)) = [(symb, today - n, today + 1)]"
  by (simp add: fetch_latest_data_def Let_def split: reply.splits)


lemma fetch_empty_iff:
  "fst (fetch_latest_data yf today symb n) = [] \<longleftrightarrow>
     yf symb (today - n) (today + 1) = Raises \<or> yf symb (today - n) (today + 1) = Frame []"
  by (auto simp: fetch_latest_data_def Let_def split: reply.splits)

lemma fetch_and_insert_requests:
  "requests (fetch_and_insert yf today symb n t lg) = [(symb, today - n, today + 1)]"
  using fetch_requests[of yf today symb n]
  by (auto simp: fetch_and_insert_def insert_dataframe_def Let_def split: prod.splits)

lemma fetch_and_insert_success:
  "success (fetch_and_insert yf today symb n t lg) \<longleftrightarrow>
     reachable t \<and> fst (fetch_latest_data yf today symb n) \<noteq> []"
  by (auto simp: fetch_and_insert_def insert_dataframe_def Let_def split: prod.splits)

lemma fetch_and_insert_table:
  "table (fetch_and_insert yf today symb n t lg) =
     (if reachable t \<and> fst (fetch_latest_data yf today symb n) \<noteq> []
      then t\<lparr>rows := rows t @ drop_duplicates (fst (fetch_latest_data yf today symb n))\<rparr>
      else t)"
  by (auto simp: fetch_and_insert_def insert_dataframe_def Let_def split: prod.splits)

lemma fetch_and_insert_last_logged:
  "fst (fetch_latest_data yf today symb n) = [] \<Longrightarrow>
     last (logged (fetch_and_insert yf today symb n t lg)) = NoNewDataAvailable symb"
  by (auto simp: fetch_and_insert_def split: prod.splits)



subsection \<open>One sync\<close>

text \<open>
  A sync either finds the data up to date and returns at once, or runs its second half
  with the number of days to look back.
\<close>

lemma update_stock_data_cases:
  obtains
    (up_to_date) d where "fst (get_latest_data_date t symb) = Some d" "today - d = 0" "\<not> force_update"
      "update_stock_data yf today symb force_update t =
         \<lparr>success = True, table = t, requests = [],
          logged = snd (get_latest_data_date t symb) @ [UpToDate symb d]\<rparr>"
  | (fetch) n lg where
      "update_stock_data yf today symb force_update t = fetch_and_insert yf today symb n t lg"
      "case fst (get_latest_data_date t symb) of
         None \<Rightarrow> n = MAX_DAYS_BACK
       | Some d \<Rightarrow> \<not> (today - d = 0 \<and> \<not> force_update) \<and> n = min (today - d + 2) MAX_DAYS_BACK"
proof (cases "get_latest_data_date t symb")
  case (Pair latest lg0)
  show ?thesis
  proof (cases latest)
    case None
    with Pair show ?thesis
      by (intro fetch[of MAX_DAYS_BACK "lg0 @ [NoExistingData symb]"])
         (simp_all add: update_stock_data_def)
  next
    case (Some d)
    show ?thesis
    proof (cases "today - d = 0 \<and> \<not> force_update")
      case True
      with Pair Some show ?thesis
        by (intro up_to_date[of d]) (simp_all add: update_stock_data_def)
    next
      case False
      with Pair Some show ?thesis
        by (intro fetch[of "min (today - d + 2) MAX_DAYS_BACK"
              "lg0 @ (if today - d > 7 \<and> \<not> force_update then [DataIsOld symb (today - d)] else [])"])
           (auto simp: update_stock_data_def Let_def)
    qed
  qed
qed




subsection \<open>A sync reads and writes only the rows of its symbol\<close>





subsection \<open>The batch\<close>


















subsection \<open>The claims about the sync controller\<close>








text \<open>
  Claim C6 as stated, that a sync whose provider returns an empty result reports success,
  fails: the provider returns the empty frame for the requested window and the sync
  returns \<open>False\<close>.
\<close>

theorem empty_result_reported_as_success_counterexample:
  "requests (update_stock_data silent_provider 11 ''AAPL'' False stored) = [(''AAPL'', 6, 12)]
   \<and> silent_provider ''AAPL'' 6 12 = Frame []
   \<and> success (update_stock_data silent_provider 11 ''AAPL'' False stored) = False"
  by (simp add: sync_defs stored_def B_def silent_provider_def)

text \<open>
  Claim C6, amended. When the provider returns an empty result for the requested window,
  the sync returns \<open>False\<close>, leaves the table unchanged and ends with the warning that
  no new data is available; it does not raise.
\<close>

theorem empty_result_is_failure:
  "provider_empty yf (requests (update_stock_data yf today symb force_update t)) \<longrightarrow>
     \<not> success (update_stock_data yf today symb force_update t)
   \<and> table (update_stock_data yf today symb force_update t) = t
   \<and> last (logged (update_stock_data yf today symb force_update t)) = NoNewDataAvailable symb"
proof (cases rule: update_stock_data_cases[of t symb today force_update yf])
  case (up_to_date d)
  then show ?thesis by (simp add: provider_empty_def)
next
  case (fetch n lg)
  show ?thesis
  proof
    assume "provider_empty yf (requests (update_stock_data yf today symb force_update t))"
    then have "yf symb (today - n) (today + 1) = Frame []"
      by (simp add: fetch(1) fetch_and_insert_requests provider_empty_def)
    then have e: "fst (fetch_latest_data yf today symb n) = []"
      by (simp add: fetch_empty_iff)
    then show "\<not> success (update_stock_data yf today symb force_update t)
      \<and> table (update_stock_data yf today symb force_update t) = t
      \<and> last (logged (update_stock_data yf today symb force_update t)) = NoNewDataAvailable symb"
      by (simp add: fetch(1) fetch_and_insert_success fetch_and_insert_table
            fetch_and_insert_last_logged)
  qed
qed

theorem empty_result_is_failure_witness:
  "provider_empty silent_provider (requests (update_stock_data silent_provider 11 ''AAPL'' False stored))
   \<and> success (update_stock_data silent_provider 11 ''AAPL'' False stored) = False
   \<and> table (update_stock_data silent_provider 11 ''AAPL'' False stored) = stored"
proof -
  have "provider_empty silent_provider (requests (update_stock_data silent_provider 11 ''AAPL'' False stored))"
    by (simp add: sync_defs stored_def B_def silent_provider_def provider_empty_def)
  with empty_result_is_failure[of silent_provider 11 "''AAPL''" False stored]
  show ?thesis by simp
qed









section \<open>Properties of the order selector\<close>

lemma set_grid:
  "set (grid max_p max_d max_q) = {(p, d, q). 0 \<le> p \<and> p \<le> max_p \<and> 0 \<le> d \<and> d \<le> max_d \<and> 0 \<le> q \<and> q \<le> max_q}"
  by (force simp: grid_def)

lemma sorted_wrt_concat_map:
  assumes "\<And>x. x \<in> set xs \<Longrightarrow> sorted_wrt R (f x)"
    and "sorted_wrt (\<lambda>x y. \<forall>a \<in> set (f x). \<forall>b \<in> set (f y). R a b) xs"
  shows "sorted_wrt R (concat (map f xs))"
  using assms by (induction xs) (auto simp: sorted_wrt_append)

lemma strict_upto: "sorted_wrt (<) [i..j::int]"
  by (simp add: strict_sorted_iff)

lemma grid_order: "sorted_wrt visited_before (grid max_p max_d max_q)"
  unfolding grid_def
proof (rule sorted_wrt_concat_map)
  fix p assume "p \<in> set [0..max_p]"
  show "sorted_wrt visited_before (concat (map (\<lambda>d. map (\<lambda>q. (p, d, q)) [0..max_q]) [0..max_d]))"
  proof (rule sorted_wrt_concat_map)
    fix d
    have "sorted_wrt (\<lambda>q q'. visited_before (p, d, q) (p, d, q')) [0..max_q]"
      using strict_upto[of 0 max_q] by (simp add: visited_before_def)
    then show "sorted_wrt visited_before (map (\<lambda>q. (p, d, q)) [0..max_q])"
      by (simp add: sorted_wrt_map)
  next
    show "sorted_wrt (\<lambda>x y. \<forall>a\<in>set (map (\<lambda>q. (p, x, q)) [0..max_q]).
            \<forall>b\<in>set (map (\<lambda>q. (p, y, q)) [0..max_q]). visited_before a b) [0..max_d]"
      by (rule sorted_wrt_mono_rel[OF _ strict_upto]) (auto simp: visited_before_def)
  qed
next
  show "sorted_wrt (\<lambda>x y. \<forall>a\<in>set (concat (map (\<lambda>d. map (\<lambda>q. (x, d, q)) [0..max_q]) [0..max_d])).
          \<forall>b\<in>set (concat (map (\<lambda>d. map (\<lambda>q. (y, d, q)) [0..max_q]) [0..max_d])). visited_before a b) [0..max_p]"
    by (rule sorted_wrt_mono_rel[OF _ strict_upto]) (auto simp: visited_before_def)
qed

lemma search_invariant:
  "case fold (\<lambda>cand best. search_step f best cand) xs (None, None) of
     (ba, bo) \<Rightarrow>
       if \<forall>c \<in> set xs. f c = None then ba = None \<and> bo = None
       else \<exists>i. first_best f xs i \<and> bo = Some (xs ! i) \<and> ba = f (xs ! i)"
proof (induction xs rule: rev_induct)
  case Nil
  show ?case by simp
next
  case (snoc x xs)
  obtain ba bo where st: "fold (\<lambda>cand best. search_step f best cand) xs (None, None) = (ba, bo)"
    by (cases "fold (\<lambda>cand best. search_step f best cand) xs (None, None)")
  show ?case
  proof (cases "\<forall>c \<in> set xs. f c = None")
    case True
    with snoc st have none: "ba = None" "bo = None" by auto
    show ?thesis
    proof (cases "f x")
      case None
      with True st none show ?thesis by simp
    next
      case (Some a)
      have "first_best f (xs @ [x]) (length xs)"
        using True Some
        by (auto simp: first_best_def nth_append less_Suc_eq dest: nth_mem)
      with Some st none show ?thesis
        by (auto intro!: exI[of _ "length xs"])
    qed
  next
    case False
    with snoc st obtain i where i: "first_best f xs i" "bo = Some (xs ! i)" "ba = f (xs ! i)"
      by auto
    then obtain a where a: "i < length xs" "f (xs ! i) = Some a"
      "\<forall>j < length xs. \<forall>b. f (xs ! j) = Some b \<longrightarrow> a \<le> b \<and> (j < i \<longrightarrow> a < b)"
      by (auto simp: first_best_def)
    show ?thesis
    proof (cases "f x")
      case None
      have "first_best f (xs @ [x]) i"
        using a None by (auto simp: first_best_def nth_append less_Suc_eq)
      with None st i a False show ?thesis
        by (auto simp: nth_append intro!: exI[of _ i])
    next
      case (Some b)
      show ?thesis
      proof (cases "b < a")
        case True
        have "first_best f (xs @ [x]) (length xs)"
          using a Some True by (fastforce simp: first_best_def nth_append less_Suc_eq)
        with Some st i a True False show ?thesis
          by (auto intro!: exI[of _ "length xs"])
      next
        case nlt: False
        have "first_best f (xs @ [x]) i"
          using a Some nlt by (auto simp: first_best_def nth_append less_Suc_eq)
        with Some st i a nlt False show ?thesis
          by (auto simp: nth_append intro!: exI[of _ i])
      qed
    qed
  qed
qed

lemma find_optimal_default:
  assumes "\<forall>c \<in> set (grid max_p max_d max_q). fit ts c = None"
  shows "find_optimal_arima_order fit ts max_p max_d max_q = ARIMA_ORDER"
  using search_invariant[where f="fit ts" and xs="grid max_p max_d max_q"] assms
  by (auto simp: find_optimal_arima_order_def split: prod.splits)

lemma find_optimal_best:
  assumes "\<exists>c \<in> set (grid max_p max_d max_q). fit ts c \<noteq> None"
  shows "\<exists>i. first_best (fit ts) (grid max_p max_d max_q) i
           \<and> find_optimal_arima_order fit ts max_p max_d max_q = grid max_p max_d max_q ! i"
proof -
  obtain ba bo where st: "fold (\<lambda>cand best. search_step (fit ts) best cand)
      (grid max_p max_d max_q) (None, None) = (ba, bo)"
    by (cases "fold (\<lambda>cand best. search_step (fit ts) best cand) (grid max_p max_d max_q) (None, None)")
  with search_invariant[where f="fit ts" and xs="grid max_p max_d max_q"] assms
  obtain i where "first_best (fit ts) (grid max_p max_d max_q) i" "bo = Some (grid max_p max_d max_q ! i)"
    by (auto split: if_splits)
  with st show ?thesis
    by (auto simp: find_optimal_arima_order_def)
qed

lemma find_optimal_tied: "find_optimal_arima_order tied_fit [] 3 2 3 = (0, 1, 0)"
  by (simp add: find_optimal_arima_order_def grid_def tied_fit_def upto.simps)

lemma find_optimal_failing: "find_optimal_arima_order failing_fit [] 3 2 3 = ARIMA_ORDER"
  by (simp add: find_optimal_arima_order_def grid_def failing_fit_def upto.simps)

text \<open>
  Claim C8. For every closing-price series, the order selector visits exactly the
  candidates \<open>(p, d, q)\<close> with \<open>0 \<le> p \<le> max_p\<close>, \<open>0 \<le> d \<le> max_d\<close> and
  \<open>0 \<le> q \<le> max_q\<close>, ordered by \<open>p\<close>, then \<open>d\<close>, then \<open>q\<close>; candidates whose
  fit fails are skipped; when none fits the configured default order is returned; and
  otherwise the result is the first candidate, in the order of iteration, that has the
  lowest AIC among those that fit. The function always returns an order.
\<close>

theorem find_optimal_arima_order_correct:
  "set (grid max_p max_d max_q)
     = {(p, d, q). 0 \<le> p \<and> p \<le> max_p \<and> 0 \<le> d \<and> d \<le> max_d \<and> 0 \<le> q \<and> q \<le> max_q}
   \<and> sorted_wrt visited_before (grid max_p max_d max_q)
   \<and> ((\<forall>c \<in> set (grid max_p max_d max_q). fit ts c = None) \<longrightarrow>
        find_optimal_arima_order fit ts max_p max_d max_q = ARIMA_ORDER)
   \<and> ((\<exists>c \<in> set (grid max_p max_d max_q). fit ts c \<noteq> None) \<longrightarrow>
        (\<exists>i. first_best (fit ts) (grid max_p max_d max_q) i
           \<and> find_optimal_arima_order fit ts max_p max_d max_q = grid max_p max_d max_q ! i))"
  using set_grid grid_order find_optimal_default find_optimal_best by blast

theorem find_optimal_arima_order_correct_witness:
  "find_optimal_arima_order failing_fit [] 3 2 3 = (1, 1, 1)
   \<and> find_optimal_arima_order tied_fit [] 3 2 3 = (0, 1, 0)
   \<and> tied_fit [] (0, 1, 0) = Some 7 \<and> tied_fit [] (1, 0, 1) = Some 7
   \<and> tied_fit [] (0, 0, 1) = Some 12
   \<and> visited_before (0, 0, 1) (0, 1, 0) \<and> visited_before (0, 1, 0) (1, 0, 1)
   \<and> (0, 1, 0) \<in> set (grid 3 2 3)"
proof -
  have "\<forall>c \<in> set (grid 3 2 3). failing_fit [] c = None"
    by (simp add: failing_fit_def)
  with find_optimal_arima_order_correct[of 3 2 3 failing_fit "[]"]
  have "find_optimal_arima_order failing_fit [] 3 2 3 = (1, 1, 1)"
    by (simp add: ARIMA_ORDER_def)
  moreover from find_optimal_arima_order_correct[of 3 2 3 tied_fit "[]"]
  have "(0, 1, 0) \<in> set (grid 3 2 3)"
    by simp
  moreover have "tied_fit [] (0, 1, 0) = Some 7" "tied_fit [] (1, 0, 1) = Some 7"
    "tied_fit [] (0, 0, 1) = Some 12"
    "visited_before (0, 0, 1) (0, 1, 0)" "visited_before (0, 1, 0) (1, 0, 1)"
    by (simp_all add: tied_fit_def visited_before_def)
  ultimately show ?thesis
    using find_optimal_tied by simp
qed

section \<open>Properties of the columns\<close>

lemma length_shift [simp]: "length (shift n xs) = length xs"
  by (simp add: shift_def)

lemma length_diff [simp]: "length (diff xs) = length xs"
  by (simp add: diff_def)

lemma length_rolling_mean [simp]: "length (rolling_mean w xs) = length xs"
  by (simp add: rolling_mean_def)

lemma length_rsi_gain [simp]: "length (rsi_gain xs) = length xs"
  by (simp add: rsi_gain_def)

lemma length_rsi_loss [simp]: "length (rsi_loss xs) = length xs"
  by (simp add: rsi_loss_def)

lemma length_rsi_col [simp]: "length (rsi_col xs) = length xs"
  by (simp add: rsi_col_def)

lemma length_engineer_features [simp]: "length (engineer_features df) = length df"
  by (simp add: engineer_features_def Let_def)

lemma nth_rolling_mean:
  "i < length xs \<Longrightarrow>
     rolling_mean w xs ! i =
       (case window w xs i of None \<Rightarrow> NaN | Some win \<Rightarrow> fdiv (fsum win) (Fin (real w)))"
  by (simp add: rolling_mean_def)

lemma rolling_mean_short:
  "i < length xs \<Longrightarrow> i + 1 < w \<Longrightarrow> rolling_mean w xs ! i = NaN"
  by (simp add: nth_rolling_mean window_def)

lemma fin_or_nan_cell: "fin_or_nan (cell x)"
  by (simp add: fin_or_nan_def cell_def split: option.splits)

lemma fin_or_nan_shift:
  assumes "\<forall>x \<in> set xs. fin_or_nan x"
  shows "\<forall>x \<in> set (shift n xs). fin_or_nan x"
  using assms by (auto simp: shift_def Let_def fin_or_nan_def)

lemma fin_or_nan_fsub: "fin_or_nan x \<Longrightarrow> fin_or_nan y \<Longrightarrow> fin_or_nan (fsub x y)"
  by (auto simp: fin_or_nan_def fsub_def)

lemma fin_or_nan_diff:
  assumes "\<forall>x \<in> set xs. fin_or_nan x"
  shows "\<forall>d \<in> set (diff xs). fin_or_nan d"
proof
  fix d assume "d \<in> set (diff xs)"
  then obtain x p where "d = fsub x p" "x \<in> set xs" "p \<in> set (shift 1 xs)"
    by (auto simp: diff_def dest: set_zip_leftD set_zip_rightD)
  with assms fin_or_nan_shift[OF assms, of 1] show "fin_or_nan d"
    by (auto intro: fin_or_nan_fsub)
qed

lemma nonneg_gain: "fin_or_nan d \<Longrightarrow> nonneg_fin (if fless (Fin 0) d then d else Fin 0)"
  by (auto simp: fin_or_nan_def nonneg_fin_def)

lemma nonneg_loss: "fin_or_nan d \<Longrightarrow> nonneg_fin (fneg (if fless d (Fin 0) then d else Fin 0))"
  by (auto simp: fin_or_nan_def nonneg_fin_def)

lemma fold_fadd_nonneg:
  assumes "\<forall>x \<in> set xs. nonneg_fin x" and "0 \<le> a"
  shows "\<exists>s. fold (\<lambda>x acc. fadd acc x) xs (Fin a) = Fin s \<and> 0 \<le> s"
  using assms
proof (induction xs arbitrary: a)
  case Nil
  then show ?case by simp
next
  case (Cons x xs)
  from Cons.prems obtain v where v: "x = Fin v" "0 \<le> v"
    by (auto simp: nonneg_fin_def)
  with Cons.prems have "0 \<le> a + v" by simp
  from Cons.IH[OF _ this] Cons.prems v show ?case by simp
qed

lemma rolling_mean_nonneg:
  assumes "\<forall>x \<in> set xs. nonneg_fin x" and "i < length xs" and "0 < w"
  shows "rolling_mean w xs ! i = NaN \<and> i + 1 < w \<or> nonneg_fin (rolling_mean w xs ! i) \<and> w \<le> i + 1"
proof (cases "i + 1 < w")
  case True
  with assms(2) show ?thesis by (simp add: rolling_mean_short)
next
  case False
  let ?win = "take w (drop (i + 1 - w) xs)"
  have sub: "set ?win \<subseteq> set xs"
    by (meson set_take_subset set_drop_subset subset_trans)
  with assms(1) have nn: "\<forall>x \<in> set ?win. nonneg_fin x" by blast
  then have "NaN \<notin> set ?win" by (auto simp: nonneg_fin_def)
  with False have w: "window w xs i = Some ?win" by (simp add: window_def Let_def)
  from fold_fadd_nonneg[OF nn, of 0] obtain s where "fsum ?win = Fin s" "0 \<le> s"
    by (auto simp: fsum_def)
  with assms(3) have "nonneg_fin (fdiv (fsum ?win) (Fin (real w)))"
    by (simp add: nonneg_fin_def)
  with w assms(2) False show ?thesis by (simp add: nth_rolling_mean)
qed

lemma rsi_gain_loss_nonneg:
  assumes "\<forall>x \<in> set closes. fin_or_nan x" and "i < length closes"
  shows "(rsi_gain closes ! i = NaN \<and> rsi_loss closes ! i = NaN \<and> i < 13)
       \<or> (nonneg_fin (rsi_gain closes ! i) \<and> nonneg_fin (rsi_loss closes ! i) \<and> 13 \<le> i)"
proof -
  have "\<forall>d \<in> set (diff closes). nonneg_fin (if fless (Fin 0) d then d else Fin 0)"
    using fin_or_nan_diff[OF assms(1)] nonneg_gain by blast
  then have g: "\<forall>x \<in> set (map (\<lambda>d. if fless (Fin 0) d then d else Fin 0) (diff closes)). nonneg_fin x"
    by (simp only: set_map ball_simps)
  have "\<forall>d \<in> set (diff closes). nonneg_fin (fneg (if fless d (Fin 0) then d else Fin 0))"
    using fin_or_nan_diff[OF assms(1)] nonneg_loss by blast
  then have l: "\<forall>x \<in> set (map (\<lambda>d. fneg (if fless d (Fin 0) then d else Fin 0)) (diff closes)). nonneg_fin x"
    by (simp only: set_map ball_simps)
  from rolling_mean_nonneg[OF g, of i 14] rolling_mean_nonneg[OF l, of i 14] assms(2)
  show ?thesis by (auto simp: rsi_gain_def rsi_loss_def)
qed

lemma rsi_of_range:
  assumes "0 \<le> g" and "0 \<le> l"
  shows "rsi_of (Fin g) (Fin l) =
     (if l = 0 then (if g = 0 then NaN else Fin 100) else Fin (100 - 100 / (1 + g / l)))"
    and "l \<noteq> 0 \<Longrightarrow> 0 \<le> 100 - 100 / (1 + g / l) \<and> 100 - 100 / (1 + g / l) \<le> 100"
proof -
  show "rsi_of (Fin g) (Fin l) =
     (if l = 0 then (if g = 0 then NaN else Fin 100) else Fin (100 - 100 / (1 + g / l)))"
  proof (cases "l = 0")
    case True
    with assms show ?thesis by (auto simp: rsi_of_def fsub_def Let_def)
  next
    case False
    with assms have "0 \<le> g / l" by simp
    then have "1 + g / l \<noteq> 0" by linarith
    with False show ?thesis by (simp add: rsi_of_def fsub_def Let_def)
  qed
next
  assume "l \<noteq> 0"
  with assms have q: "0 \<le> g / l" by simp
  then have pos: "0 < 1 + g / l" by linarith
  have "100 / (1 + g / l) \<le> 100"
    using q pos by (simp add: divide_le_eq)
  moreover have "0 \<le> 100 / (1 + g / l)"
    using pos by simp
  ultimately show "0 \<le> 100 - 100 / (1 + g / l) \<and> 100 - 100 / (1 + g / l) \<le> 100"
    by linarith
qed

lemma nth_rsi_col:
  "i < length closes \<Longrightarrow> rsi_col closes ! i = rsi_of (rsi_gain closes ! i) (rsi_loss closes ! i)"
  by (simp add: rsi_col_def)

section \<open>Properties of the feature engine and of saving\<close>

lemma closes_of_frame: "map (\<lambda>r. cell (close r)) (closes_frame cs) = map Fin cs"
proof -
  have "(\<lambda>r. cell (close r)) \<circ> (\<lambda>(i, c). B (int i) (Some c) (Some c) (Some c) (Some c) (Some 1000))
          = Fin \<circ> snd"
    by (rule ext) (simp add: B_def cell_def split: prod.splits)
  then have "map (\<lambda>r. cell (close r)) (closes_frame cs) = map (Fin \<circ> snd) (enumerate 0 cs)"
    by (simp add: closes_frame_def)
  also have "\<dots> = map Fin (map snd (enumerate 0 cs))"
    by (simp only: map_map)
  finally show ?thesis by simp
qed

lemma length_closes_frame [simp]: "length (closes_frame cs) = length cs"
  by (simp add: closes_frame_def)

lemma rsi_engineer_features:
  "i < length df \<Longrightarrow> rsi (engineer_features df ! i) = rsi_col (map (\<lambda>r. cell (close r)) df) ! i"
  by (simp add: engineer_features_def Let_def)

lemma ma_20_engineer_features:
  "i < length df \<Longrightarrow> ma_20 (engineer_features df ! i) = rolling_mean 20 (map (\<lambda>r. cell (close r)) df) ! i"
  by (simp add: engineer_features_def Let_def)

lemmas column_defs = rsi_col_def rsi_of_def rsi_gain_def rsi_loss_def rolling_mean_def rolling_std_def
  window_def diff_def shift_def pct_change_def fsum_def fsub_def

lemma flat_rsi:
  "rsi_loss (map Fin flat_closes) ! 13 = Fin 0"
  "rsi_gain (map Fin flat_closes) ! 13 = Fin 0"
  "rsi_col (map Fin flat_closes) ! 13 = NaN"
  by (simp_all add: column_defs flat_closes_def Let_def)

lemma doubling_rsi:
  "rsi_loss (map Fin doubling_closes) ! 13 = Fin 0"
  "rsi_gain (map Fin doubling_closes) ! 13 = Fin (8191 / 14)"
  "rsi_col (map Fin doubling_closes) ! 13 = Fin 100"
  by (simp_all add: column_defs doubling_closes_def Let_def)

lemma early_rows_isna:
  assumes "i < length df" and "i < 19"
  shows "isna_row (engineer_features df ! i)"
proof -
  from assms have "rolling_mean 20 (map (\<lambda>r. cell (close r)) df) ! i = NaN"
    by (intro rolling_mean_short) simp_all
  with assms(1) show ?thesis
    by (simp add: isna_row_def ma_20_engineer_features)
qed

lemma complete_rows_late:
  assumes "f \<in> set (engineer_features df)" and "\<not> isna_row f"
  shows "\<exists>i. 19 \<le> i \<and> i < length df \<and> f = engineer_features df ! i"
proof -
  from assms(1) obtain i where i: "i < length df" "f = engineer_features df ! i"
    by (auto simp: in_set_conv_nth)
  with assms(2) early_rows_isna[of i df] have "19 \<le> i"
    by (cases "i < 19") auto
  with i show ?thesis by blast
qed

lemma columns_to_save_fields [simp]:
  "ma_5 (columns_to_save f) = ma_5 f" "ma_10 (columns_to_save f) = ma_10 f"
  "ma_20 (columns_to_save f) = ma_20 f" "daily_return (columns_to_save f) = daily_return f"
  "key (columns_to_save f) = key f"
  by (simp_all add: columns_to_save_def key_def)

lemma save_cleaned_data_rows:
  assumes "fst (save_cleaned_data df symb t) = Inr t'"
  shows "t' = t\<lparr>rows := rows t @ drop_duplicates (map columns_to_save (filter (\<lambda>r. \<not> isna_row r) df))\<rparr>"
  using assms
  by (cases "df = []")
     (auto simp: save_cleaned_data_def insert_dataframe_def Let_def split: if_splits)

lemma saved_rows_complete:
  assumes "r \<in> set (drop_duplicates (map columns_to_save (filter (\<lambda>r. \<not> isna_row r) df)))"
  shows "\<exists>f \<in> set df. \<not> isna_row f \<and> r = columns_to_save f"
  using assms set_drop_duplicates_subset by fastforce

lemma engineer_features_fields:
  assumes "i < length df"
  shows "open (engineer_features df ! i) = open (df ! i)"
    and "high (engineer_features df ! i) = high (df ! i)"
    and "low (engineer_features df ! i) = low (df ! i)"
    and "close (engineer_features df ! i) = close (df ! i)"
    and "volume (engineer_features df ! i) = volume (df ! i)"
    and "ma_5 (engineer_features df ! i) = rolling_mean 5 (map (\<lambda>r. cell (close r)) df) ! i"
    and "ma_10 (engineer_features df ! i) = rolling_mean 10 (map (\<lambda>r. cell (close r)) df) ! i"
    and "daily_return (engineer_features df ! i)
           = map (\<lambda>x. fmul x (Fin 100)) (pct_change (map (\<lambda>r. cell (close r)) df)) ! i"
    and "price_range (engineer_features df ! i) = fsub (cell (high (df ! i))) (cell (low (df ! i)))"
    and "price_range_pct (engineer_features df ! i)
           = fmul (fdiv (fsub (cell (high (df ! i))) (cell (low (df ! i)))) (cell (close (df ! i)))) (Fin 100)"
    and "volume_ma_5 (engineer_features df ! i) = rolling_mean 5 (map (\<lambda>r. cell (volume r)) df) ! i"
    and "volatility_5 (engineer_features df ! i)
           = rolling_std 5 (map (\<lambda>x. fmul x (Fin 100)) (pct_change (map (\<lambda>r. cell (close r)) df))) ! i"
    and "volatility_10 (engineer_features df ! i)
           = rolling_std 10 (map (\<lambda>x. fmul x (Fin 100)) (pct_change (map (\<lambda>r. cell (close r)) df))) ! i"
  using assms by (simp_all add: engineer_features_def Let_def)

lemma nth_closes_frame:
  "i < length cs \<Longrightarrow>
     closes_frame cs ! i = B (int i) (Some (cs ! i)) (Some (cs ! i)) (Some (cs ! i)) (Some (cs ! i)) (Some 1000)"
  by (simp add: closes_frame_def nth_enumerate_eq)

lemma volumes_of_frame: "map (\<lambda>r. cell (volume r)) (closes_frame cs) = map (\<lambda>c. Fin 1000) cs"
proof -
  have "(\<lambda>r. cell (volume r)) \<circ> (\<lambda>(i, c). B (int i) (Some c) (Some c) (Some c) (Some c) (Some 1000))
          = (\<lambda>c. Fin 1000) \<circ> snd"
    by (rule ext) (simp add: B_def cell_def split: prod.splits)
  then have "map (\<lambda>r. cell (volume r)) (closes_frame cs) = map ((\<lambda>c. Fin 1000) \<circ> snd) (enumerate 0 cs)"
    by (simp add: closes_frame_def)
  also have "\<dots> = map (\<lambda>c. Fin 1000) (map snd (enumerate 0 cs))"
    by (simp only: map_map)
  finally show ?thesis by simp
qed

lemma doubling_returns:
  "map (\<lambda>x. fmul x (Fin 100)) (pct_change (map Fin doubling_closes))
     = [NaN, Fin 100, Fin 100, Fin 100, Fin 100, Fin 100, Fin 100, Fin 100, Fin 100, Fin 100,
        Fin 100, Fin 100, Fin 100, Fin 100, Fin 100, Fin 100, Fin 100, Fin 100, Fin 100, Fin 100,
        Fin 100]"
  by (simp add: pct_change_def shift_def fsub_def doubling_closes_def Let_def)

lemma doubling_row_19:
  "ma_5 (engineer_features (closes_frame doubling_closes) ! 19) = Fin (1015808 / 5)"
  "ma_10 (engineer_features (closes_frame doubling_closes) ! 19) = Fin (523776 / 5)"
  "ma_20 (engineer_features (closes_frame doubling_closes) ! 19) = Fin (209715 / 4)"
  "daily_return (engineer_features (closes_frame doubling_closes) ! 19) = Fin 100"
  "price_range (engineer_features (closes_frame doubling_closes) ! 19) = Fin 0"
  "price_range_pct (engineer_features (closes_frame doubling_closes) ! 19) = Fin 0"
  "volume_ma_5 (engineer_features (closes_frame doubling_closes) ! 19) = Fin 1000"
  "volatility_5 (engineer_features (closes_frame doubling_closes) ! 19) = Fin 0"
  "volatility_10 (engineer_features (closes_frame doubling_closes) ! 19) = Fin 0"
  "rsi (engineer_features (closes_frame doubling_closes) ! 19) = Fin 100"
proof -
  have n: "(19::nat) < length (closes_frame doubling_closes)"
    by (simp add: doubling_closes_def)
  have m: "(19::nat) < length doubling_closes"
    by (simp add: doubling_closes_def)
  note f = engineer_features_fields[OF n] ma_20_engineer_features[OF n] rsi_engineer_features[OF n]
  show "ma_5 (engineer_features (closes_frame doubling_closes) ! 19) = Fin (1015808 / 5)"
    unfolding f closes_of_frame
    by (simp add: rolling_mean_def window_def fsum_def doubling_closes_def)
  show "ma_10 (engineer_features (closes_frame doubling_closes) ! 19) = Fin (523776 / 5)"
    unfolding f closes_of_frame
    by (simp add: rolling_mean_def window_def fsum_def doubling_closes_def)
  show "ma_20 (engineer_features (closes_frame doubling_closes) ! 19) = Fin (209715 / 4)"
    unfolding f closes_of_frame
    by (simp add: rolling_mean_def window_def fsum_def doubling_closes_def)
  show "daily_return (engineer_features (closes_frame doubling_closes) ! 19) = Fin 100"
    unfolding f closes_of_frame doubling_returns by simp
  show "price_range (engineer_features (closes_frame doubling_closes) ! 19) = Fin 0"
    unfolding f nth_closes_frame[OF m] by (simp add: B_def cell_def fsub_def)
  show "price_range_pct (engineer_features (closes_frame doubling_closes) ! 19) = Fin 0"
    unfolding f nth_closes_frame[OF m] by (simp add: B_def cell_def fsub_def doubling_closes_def)
  show "volume_ma_5 (engineer_features (closes_frame doubling_closes) ! 19) = Fin 1000"
    unfolding f volumes_of_frame
    by (simp add: rolling_mean_def window_def fsum_def doubling_closes_def)
  show "volatility_5 (engineer_features (closes_frame doubling_closes) ! 19) = Fin 0"
    unfolding f closes_of_frame doubling_returns
    by (simp add: rolling_std_def window_def fsum_def fsub_def)
  show "volatility_10 (engineer_features (closes_frame doubling_closes) ! 19) = Fin 0"
    unfolding f closes_of_frame doubling_returns
    by (simp add: rolling_std_def window_def fsum_def fsub_def)
  show "rsi (engineer_features (closes_frame doubling_closes) ! 19) = Fin 100"
    unfolding f closes_of_frame
    by (simp add: column_defs doubling_closes_def Let_def)
qed

lemma doubling_row_19_complete:
  "\<not> isna_row (engineer_features (closes_frame doubling_closes) ! 19)"
proof -
  have n: "(19::nat) < length (closes_frame doubling_closes)"
    by (simp add: doubling_closes_def)
  have m: "(19::nat) < length doubling_closes"
    by (simp add: doubling_closes_def)
  show ?thesis
    unfolding isna_row_def doubling_row_19 engineer_features_fields(1-5)[OF n] nth_closes_frame[OF m]
    by (simp add: B_def)
qed

lemma drop_duplicates_Nil_iff: "drop_duplicates xs = [] \<longleftrightarrow> xs = []"
  by (cases xs) simp_all

text \<open>
  Claim C10. Every row that \<open>save_cleaned_data\<close> writes to \<^verbatim>\<open>stocks_clean\<close> has
  \<open>ma_5\<close>, \<open>ma_10\<close>, \<open>ma_20\<close> and \<open>daily_return\<close> present: the rows written are
  the saved columns of rows of the frame that have no missing cell in any column, the
  columns that are not saved (range, volume average, volatilities, RSI) included. For a
  frame that comes from \<open>engineer_features\<close> every written row comes from position 19
  or later, so the first 19 rows of a symbol, which lack the 20-bar history, are never
  written.
\<close>

theorem saved_rows_have_features:
  "(fst (save_cleaned_data df symb t) = Inr t' \<longrightarrow>
      (\<exists>new. t' = t\<lparr>rows := rows t @ new\<rparr> \<and>
         (\<forall>r \<in> set new. ma_5 r \<noteq> NaN \<and> ma_10 r \<noteq> NaN \<and> ma_20 r \<noteq> NaN \<and> daily_return r \<noteq> NaN \<and>
            (\<exists>f \<in> set df. \<not> isna_row f \<and> r = columns_to_save f))))
   \<and> (fst (save_cleaned_data (engineer_features bars) symb2 t2) = Inr t2' \<longrightarrow>
      (\<exists>new. t2' = t2\<lparr>rows := rows t2 @ new\<rparr> \<and>
         (\<forall>r \<in> set new. \<exists>i. 19 \<le> i \<and> i < length bars
            \<and> r = columns_to_save (engineer_features bars ! i))))"
proof (intro conjI impI)
  assume "fst (save_cleaned_data df symb t) = Inr t'"
  from save_cleaned_data_rows[OF this]
  have t': "t' = t\<lparr>rows := rows t @ drop_duplicates (map columns_to_save (filter (\<lambda>r. \<not> isna_row r) df))\<rparr>" .
  have "\<forall>r \<in> set (drop_duplicates (map columns_to_save (filter (\<lambda>r. \<not> isna_row r) df))).
          ma_5 r \<noteq> NaN \<and> ma_10 r \<noteq> NaN \<and> ma_20 r \<noteq> NaN \<and> daily_return r \<noteq> NaN \<and>
            (\<exists>f \<in> set df. \<not> isna_row f \<and> r = columns_to_save f)"
  proof
    fix r assume "r \<in> set (drop_duplicates (map columns_to_save (filter (\<lambda>r. \<not> isna_row r) df)))"
    from saved_rows_complete[OF this] obtain f where f: "f \<in> set df" "\<not> isna_row f" "r = columns_to_save f"
      by blast
    from f(2,3) have "ma_5 r \<noteq> NaN \<and> ma_10 r \<noteq> NaN \<and> ma_20 r \<noteq> NaN \<and> daily_return r \<noteq> NaN"
      by (simp add: isna_row_def)
    with f show "ma_5 r \<noteq> NaN \<and> ma_10 r \<noteq> NaN \<and> ma_20 r \<noteq> NaN \<and> daily_return r \<noteq> NaN \<and>
            (\<exists>f \<in> set df. \<not> isna_row f \<and> r = columns_to_save f)"
      by blast
  qed
  with t' show "\<exists>new. t' = t\<lparr>rows := rows t @ new\<rparr> \<and>
         (\<forall>r \<in> set new. ma_5 r \<noteq> NaN \<and> ma_10 r \<noteq> NaN \<and> ma_20 r \<noteq> NaN \<and> daily_return r \<noteq> NaN \<and>
            (\<exists>f \<in> set df. \<not> isna_row f \<and> r = columns_to_save f))"
    by blast
next
  assume "fst (save_cleaned_data (engineer_features bars) symb2 t2) = Inr t2'"
  from save_cleaned_data_rows[OF this]
  have t': "t2' = t2\<lparr>rows := rows t2 @ drop_duplicates (map columns_to_save
              (filter (\<lambda>r. \<not> isna_row r) (engineer_features bars)))\<rparr>" .
  have "\<forall>r \<in> set (drop_duplicates (map columns_to_save (filter (\<lambda>r. \<not> isna_row r) (engineer_features bars)))).
          \<exists>i. 19 \<le> i \<and> i < length bars \<and> r = columns_to_save (engineer_features bars ! i)"
    using saved_rows_complete complete_rows_late by blast
  with t' show "\<exists>new. t2' = t2\<lparr>rows := rows t2 @ new\<rparr> \<and>
         (\<forall>r \<in> set new. \<exists>i. 19 \<le> i \<and> i < length bars
            \<and> r = columns_to_save (engineer_features bars ! i))"
    by blast
qed

theorem saved_rows_have_features_witness:
  "\<not> isna_row (engineer_features (closes_frame doubling_closes) ! 19)
   \<and> ma_20 (engineer_features (closes_frame doubling_closes) ! 19) = Fin (209715 / 4)
   \<and> (\<exists>t'. fst (save_cleaned_data (engineer_features (closes_frame doubling_closes)) ''AAPL'' empty_table)
               = Inr t'
            \<and> rows t' \<noteq> [] \<and> ma_20 (hd (rows t')) \<noteq> NaN \<and> daily_return (hd (rows t')) \<noteq> NaN)"
proof -
  let ?E = "engineer_features (closes_frame doubling_closes)"
  let ?new = "drop_duplicates (map columns_to_save (filter (\<lambda>r. \<not> isna_row r) ?E))"
  have "?E ! 19 \<in> set ?E"
    by (rule nth_mem) (simp add: doubling_closes_def)
  with doubling_row_19_complete have "filter (\<lambda>r. \<not> isna_row r) ?E \<noteq> []"
    by (auto simp: filter_empty_conv)
  then have ne: "?new \<noteq> []"
    by (simp add: drop_duplicates_Nil_iff)
  have run: "fst (save_cleaned_data ?E ''AAPL'' empty_table) = Inr (empty_table\<lparr>rows := ?new\<rparr>)"
    by (simp add: save_cleaned_data_def insert_dataframe_def empty_table_def Let_def)
  from saved_rows_have_features[of ?E "''AAPL''" empty_table "empty_table\<lparr>rows := ?new\<rparr>"] run
  obtain new where new: "empty_table\<lparr>rows := ?new\<rparr> = empty_table\<lparr>rows := rows empty_table @ new\<rparr>"
    "\<forall>r \<in> set new. ma_5 r \<noteq> NaN \<and> ma_10 r \<noteq> NaN \<and> ma_20 r \<noteq> NaN \<and> daily_return r \<noteq> NaN \<and>
            (\<exists>f \<in> set ?E. \<not> isna_row f \<and> r = columns_to_save f)"
    by blast
  from new(1) have "rows (empty_table\<lparr>rows := ?new\<rparr>) = rows (empty_table\<lparr>rows := rows empty_table @ new\<rparr>)"
    by simp
  then have "new = ?new" by (simp add: empty_table_def)
  with ne new(2) have "ma_20 (hd ?new) \<noteq> NaN \<and> daily_return (hd ?new) \<noteq> NaN"
    by (metis hd_in_set)
  with run ne doubling_row_19_complete doubling_row_19(3) show ?thesis
    by simp
qed

text \<open>
  Claim C7 as stated, that the RSI is defined and equal to 100 whenever the average loss
  of the trailing window is 0, fails: on fourteen equal closes the average loss at
  position 13 is 0 and the RSI there is NaN, because the average gain is 0 as well and
  \<open>0 / 0\<close> is NaN.
\<close>

theorem rsi_without_losses_counterexample:
  "rsi_loss (map (\<lambda>r. cell (close r)) (closes_frame flat_closes)) ! 13 = Fin 0
   \<and> rsi (engineer_features (closes_frame flat_closes) ! 13) = NaN"
proof -
  have "(13::nat) < length (closes_frame flat_closes)"
    by (simp add: flat_closes_def)
  from rsi_engineer_features[OF this] flat_rsi show ?thesis
    by (simp add: closes_of_frame)
qed

text \<open>
  Claim C7, amended. For every bar sequence, the 14-period RSI at a position is either
  absent (NaN) or a number in \<open>[0, 100]\<close>; when the average loss of the trailing window
  is 0 and the average gain is positive the RSI is 100; when both averages are 0 (no
  price change in the window) the RSI is absent.
\<close>

theorem rsi_range_and_edge:
  assumes "i < length df"
  shows "(rsi (engineer_features df ! i) = NaN
            \<or> (\<exists>v. rsi (engineer_features df ! i) = Fin v \<and> 0 \<le> v \<and> v \<le> 100))
       \<and> (rsi_loss (map (\<lambda>r. cell (close r)) df) ! i = Fin 0
            \<and> (\<exists>g. rsi_gain (map (\<lambda>r. cell (close r)) df) ! i = Fin g \<and> 0 < g)
          \<longrightarrow> rsi (engineer_features df ! i) = Fin 100)
       \<and> (rsi_loss (map (\<lambda>r. cell (close r)) df) ! i = Fin 0
            \<and> rsi_gain (map (\<lambda>r. cell (close r)) df) ! i = Fin 0
          \<longrightarrow> rsi (engineer_features df ! i) = NaN)"
proof -
  let ?cl = "map (\<lambda>r. cell (close r)) df"
  have r: "rsi (engineer_features df ! i) = rsi_of (rsi_gain ?cl ! i) (rsi_loss ?cl ! i)"
    using assms by (simp add: rsi_engineer_features nth_rsi_col)
  have fin: "\<forall>x \<in> set ?cl. fin_or_nan x"
    by (simp add: fin_or_nan_cell)
  from rsi_gain_loss_nonneg[OF fin, of i] assms
  consider (early) "rsi_gain ?cl ! i = NaN" "rsi_loss ?cl ! i = NaN"
    | (late) g l where "rsi_gain ?cl ! i = Fin g" "0 \<le> g" "rsi_loss ?cl ! i = Fin l" "0 \<le> l"
    by (auto simp: nonneg_fin_def)
  then show ?thesis
  proof cases
    case early
    then show ?thesis by (simp add: r rsi_of_def fsub_def)
  next
    case late
    from rsi_of_range[OF late(2,4)] late(1,3) show ?thesis
      by (cases "l = 0") (auto simp: r)
  qed
qed

theorem rsi_range_and_edge_witness:
  "rsi_loss (map (\<lambda>r. cell (close r)) (closes_frame doubling_closes)) ! 13 = Fin 0
   \<and> rsi_gain (map (\<lambda>r. cell (close r)) (closes_frame doubling_closes)) ! 13 = Fin (8191 / 14)
   \<and> rsi (engineer_features (closes_frame doubling_closes) ! 13) = Fin 100
   \<and> rsi_loss (map (\<lambda>r. cell (close r)) (closes_frame flat_closes)) ! 13 = Fin 0
   \<and> rsi_gain (map (\<lambda>r. cell (close r)) (closes_frame flat_closes)) ! 13 = Fin 0
   \<and> rsi (engineer_features (closes_frame flat_closes) ! 13) = NaN"
proof -
  have d: "(13::nat) < length (closes_frame doubling_closes)"
    by (simp add: doubling_closes_def)
  have f: "(13::nat) < length (closes_frame flat_closes)"
    by (simp add: flat_closes_def)
  have "\<exists>g. rsi_gain (map (\<lambda>r. cell (close r)) (closes_frame doubling_closes)) ! 13 = Fin g \<and> 0 < g"
    by (intro exI[of _ "8191 / 14"]) (simp add: closes_of_frame doubling_rsi(2))
  moreover have "rsi_loss (map (\<lambda>r. cell (close r)) (closes_frame doubling_closes)) ! 13 = Fin 0"
    using doubling_rsi(1) by (simp add: closes_of_frame)
  ultimately have "rsi (engineer_features (closes_frame doubling_closes) ! 13) = Fin 100"
    using rsi_range_and_edge[OF d] by blast
  moreover from rsi_range_and_edge[OF f] flat_rsi(1,2)
  have "rsi (engineer_features (closes_frame flat_closes) ! 13) = NaN"
    by (simp add: closes_of_frame)
  ultimately show ?thesis
    using doubling_rsi(1,2) flat_rsi(1,2) by (simp add: closes_of_frame)
qed

section \<open>Properties of the label constructor\<close>

lemma create_target_variable_map:
  "create_target_variable df days_ahead =
     (let closes = map (\<lambda>r. cell (close r)) df;
          future = shift (- days_ahead) closes;
          change = map (\<lambda>(f, c). fmul (fdiv (fsub f c) c) (Fin 100)) (zip future closes)
      in map (\<lambda>i.
            \<lparr>source = df ! i, future_price = future ! i, price_change_pct = change ! i,
             target = Some (if fless (Fin 2) (change ! i) then 1 else 0)\<rparr>) [0..<length df])"
  by (simp add: create_target_variable_def Let_def filter_id_conv)

lemma fmul_NaN [simp]: "fmul NaN y = NaN"
  by (cases y) simp_all

lemma fdiv_NaN [simp]: "fdiv NaN y = NaN"
  by (cases y) simp_all

lemma fsub_NaN [simp]: "fsub NaN y = NaN"
  by (cases y) (simp_all add: fsub_def)

lemma spec_labels:
  "map target (create_target_variable (closes_frame spec_closes) 2)
     = [Some 1, Some 0, Some 1, Some 0, Some 0]"
  "map future_price (create_target_variable (closes_frame spec_closes) 2)
     = [Fin 105, Fin 98, Fin 110, NaN, NaN]"
  by (simp_all add: create_target_variable_map closes_of_frame shift_def spec_closes_def Let_def
        fsub_def)

text \<open>
  Claim C2 says that the rows whose future close is undefined are excluded from the
  output. The code keeps them: \<open>create_target_variable\<close> returns as many rows as it
  gets, and every row whose position plus the horizon is past the end has a NaN
  \<open>future_price\<close> and the target 0, because the target column is built by a comparison
  and a cast and so holds no missing cell for \<^verbatim>\<open>dropna\<close> to drop.
\<close>

theorem create_target_variable_keeps_last_rows:
  "length (create_target_variable df days_ahead) = length df
   \<and> (\<forall>i < length df. int (length df) \<le> int i + days_ahead \<longrightarrow>
          future_price (create_target_variable df days_ahead ! i) = NaN
        \<and> target (create_target_variable df days_ahead ! i) = Some 0)"
proof -
  have "future_price (create_target_variable df days_ahead ! i) = NaN
        \<and> target (create_target_variable df days_ahead ! i) = Some 0"
    if i: "i < length df" and late: "int (length df) \<le> int i + days_ahead" for i
  proof -
    from i late have "shift (- days_ahead) (map (\<lambda>r. cell (close r)) df) ! i = NaN"
      by (simp add: shift_def)
    with i show ?thesis
      by (simp add: create_target_variable_map Let_def)
  qed
  moreover have "length (create_target_variable df days_ahead) = length df"
    by (simp add: create_target_variable_map Let_def)
  ultimately show ?thesis by blast
qed

theorem create_target_variable_keeps_last_rows_witness:
  "length (create_target_variable (closes_frame spec_closes) 2) = 5
   \<and> map target (create_target_variable (closes_frame spec_closes) 2)
       = [Some 1, Some 0, Some 1, Some 0, Some 0]
   \<and> map future_price (create_target_variable (closes_frame spec_closes) 2)
       = [Fin 105, Fin 98, Fin 110, NaN, NaN]
   \<and> future_price (create_target_variable (closes_frame spec_closes) 2 ! 3) = NaN
   \<and> target (create_target_variable (closes_frame spec_closes) 2 ! 3) = Some 0"
proof -
  have l: "length (closes_frame spec_closes) = 5"
    by (simp add: spec_closes_def)
  from create_target_variable_keeps_last_rows[of "closes_frame spec_closes" 2]
  have "length (create_target_variable (closes_frame spec_closes) 2) = 5"
    and "future_price (create_target_variable (closes_frame spec_closes) 2 ! 3) = NaN
       \<and> target (create_target_variable (closes_frame spec_closes) 2 ! 3) = Some 0"
    unfolding l by simp_all
  with spec_labels show ?thesis by simp
qed

end
